theory Spec2Isabelle
  imports Complex_Main "HOL-Library.Sublist" "HOL-Library.Multiset"
begin

section \<open>JavaScript strings and the regular expressions of the static analyzer\<close>

text \<open>
  A JavaScript string is a sequence of UTF-16 code units; \<open>length\<close> counts code units, as
  \<open>code.length\<close> does. String literals of the source are written through \<open>js\<close>; the
  two code units of the siren emoji that starts the gate's error messages are spelled out.
\<close>

type_synonym jsstring = "nat list"

definition js :: "string \<Rightarrow> jsstring" where
  "js s = map of_char s"

definition siren :: jsstring where
  "siren = [55357, 57000]"

text \<open>
  The twelve entries of \<open>DANGEROUS_PATTERNS\<close> use literal characters, the classes
  \<open>\s\<close>, \<open>['"`]\<close> and \<open>.\<close>, a greedy star over a class, alternation and
  concatenation; all carry the flags \<open>g\<close> and \<open>i\<close>.
\<close>

datatype cclass = WhiteSpace | QuoteMark | AnyChar

datatype re = Eps | Chr nat | Cls cclass | Star cclass | Alt re re | Seq re re

text \<open>
  Canonicalisation under the \<open>i\<close> flag (no \<open>u\<close> flag): a code unit is compared by its
  upper-case form, and a code unit from 128 on never canonicalises to one below 128. Every
  literal of the patterns is ASCII, so only the ASCII letters fold.
\<close>

definition canonicalize :: "nat \<Rightarrow> nat" where
  "canonicalize c = (if 97 \<le> c \<and> c \<le> 122 then c - 32 else c)"

definition is_line_terminator :: "nat \<Rightarrow> bool" where
  "is_line_terminator c = (c = 10 \<or> c = 13 \<or> c = 8232 \<or> c = 8233)"

definition is_white_space :: "nat \<Rightarrow> bool" where
  "is_white_space c =
     (c = 9 \<or> c = 11 \<or> c = 12 \<or> c = 32 \<or> c = 160 \<or> c = 5760 \<or> (8192 \<le> c \<and> c \<le> 8202)
      \<or> c = 8239 \<or> c = 8287 \<or> c = 12288 \<or> c = 65279)"

fun in_class :: "cclass \<Rightarrow> nat \<Rightarrow> bool" where
  "in_class WhiteSpace c = (is_white_space c \<or> is_line_terminator c)"
| "in_class QuoteMark c = (c = 39 \<or> c = 34 \<or> c = 96)"
| "in_class AnyChar c = (\<not> is_line_terminator c)"

text \<open>
  \<open>rmatch r s\<close> lists, in the backtracking matcher's order of preference, what is left of
  \<open>s\<close> after each way of matching \<open>r\<close> at its start. The head of the list is the match
  the engine reports.
\<close>

fun rmatch :: "re \<Rightarrow> jsstring \<Rightarrow> jsstring list" where
  "rmatch Eps s = [s]"
| "rmatch (Chr c) [] = []"
| "rmatch (Chr c) (x # xs) = (if canonicalize x = canonicalize c then [xs] else [])"
| "rmatch (Cls k) [] = []"
| "rmatch (Cls k) (x # xs) = (if in_class k x then [xs] else [])"
| "rmatch (Star k) [] = [[]]"
| "rmatch (Star k) (x # xs) =
     (if in_class k x then rmatch (Star k) xs @ [x # xs] else [x # xs])"
| "rmatch (Alt a b) s = rmatch a s @ rmatch b s"
| "rmatch (Seq a b) s = concat (map (rmatch b) (rmatch a s))"

text \<open>The leftmost match at or after the start of \<open>s\<close>: what is left of \<open>s\<close> after it.\<close>

fun find_from :: "re \<Rightarrow> jsstring \<Rightarrow> jsstring option" where
  "find_from r [] = (case rmatch r [] of [] \<Rightarrow> None | t # _ \<Rightarrow> Some t)"
| "find_from r (x # xs) =
     (case rmatch r (x # xs) of [] \<Rightarrow> find_from r xs | t # _ \<Rightarrow> Some t)"

text \<open>
  \<open>RegExp.prototype.test\<close> on a global pattern: the search starts at the pattern's
  \<open>lastIndex\<close>; a match stores its end there, a failure (or a \<open>lastIndex\<close> beyond the
  end of the string) stores 0. The result is the answer and the new \<open>lastIndex\<close>.
\<close>

definition regexp_test :: "re \<Rightarrow> jsstring \<Rightarrow> nat \<Rightarrow> bool \<times> nat" where
  "regexp_test r s li =
     (if li > length s then (False, 0)
      else case find_from r (drop li s) of
             None \<Rightarrow> (False, 0)
           | Some t \<Rightarrow> (True, length s - length t))"

definition lit :: "string \<Rightarrow> re" where
  "lit s = foldr (\<lambda>c r. Seq (Chr (of_char c)) r) s Eps"

text \<open>\<open>/require\s*\(\s*['"`]m['"`]\s*\)/gi\<close> for a module name \<open>m\<close>.\<close>

definition require_of :: "string \<Rightarrow> re" where
  "require_of m =
     Seq (lit ''require'') (Seq (Star WhiteSpace) (Seq (lit ''('') (Seq (Star WhiteSpace)
       (Seq (Cls QuoteMark) (Seq (lit m) (Seq (Cls QuoteMark)
         (Seq (Star WhiteSpace) (lit '')''))))))))"

definition DANGEROUS_PATTERNS :: "re list" where
  "DANGEROUS_PATTERNS =
    [require_of ''child_process'',
     require_of ''fs'',
     require_of ''net'',
     require_of ''http'',
     require_of ''os'',
     Seq (lit ''process.'') (Alt (lit ''exit'') (Alt (lit ''kill'') (lit ''abort''))),
     Seq (lit ''eval'') (Seq (Star WhiteSpace) (lit ''('')),
     Seq (lit ''Function'') (Seq (Star WhiteSpace) (lit ''('')),
     Seq (lit ''setTimeout'') (Seq (Star AnyChar) (lit ''eval'')),
     Seq (lit ''setInterval'') (Seq (Star AnyChar) (lit ''eval'')),
     lit ''global.'',
     lit ''globalThis.'']"

section \<open>Violations\<close>

datatype level = LOW | MEDIUM | HIGH | CRITICAL

text \<open>The \<open>type\<close> tags of the module gate's and the environment gate's violations.\<close>

datatype violation_type =
    BLOCKED_MODULE | DANGEROUS_PATTERN | SUSPICIOUS_BEHAVIOR
  | ENV_ACCESS_BLOCKED | SENSITIVE_VAR_ACCESS | ENV_ENUMERATION

text \<open>
  \<open>SecurityViolation\<close> of moduleBlocker.ts. The field \<open>pattern\<close> holds the index of the
  pattern in \<open>DANGEROUS_PATTERNS\<close> in place of the text \<open>pattern.toString()\<close>; the
  timestamp is the clock reading in milliseconds.
\<close>

record SecurityViolation =
  sv_type :: violation_type
  sv_severity :: level
  sv_module :: "jsstring option"
  sv_pattern :: "nat option"
  sv_description :: jsstring
  sv_timestamp :: int
  sv_codeHash :: "jsstring option"

text \<open>\<open>MemoryViolation\<close> of memoryMonitor.ts.\<close>

datatype memory_violation_type =
    HEAP_LIMIT_EXCEEDED | RSS_LIMIT_EXCEEDED | ARRAY_BUFFER_LIMIT_EXCEEDED
  | MEMORY_GROWTH_ANOMALY

record MemoryViolation =
  mv_type :: memory_violation_type
  mv_severity :: level
  mv_limit :: int
  mv_actual :: int
  mv_timestamp :: int
  mv_description :: jsstring

text \<open>
  What a JavaScript call throws, as far as this core tells the cases apart: an
  \<open>Error\<close> with its message, or a value that is not an \<open>Error\<close>.
\<close>

datatype js_error = Error jsstring | NonError

section \<open>The module gate and static analyzer (moduleBlocker.ts)\<close>

definition BLOCKED_MODULES :: "jsstring list" where
  "BLOCKED_MODULES = map js
    [''fs'', ''fs/promises'', ''fs-extra'', ''graceful-fs'',
     ''child_process'', ''cluster'', ''process'', ''os'',
     ''net'', ''http'', ''https'', ''http2'', ''dgram'', ''dns'', ''tls'',
     ''vm'', ''worker_threads'', ''async_hooks'', ''inspector'',
     ''perf_hooks'', ''trace_events'', ''v8'', ''repl'',
     ''npm'', ''yarn'', ''pnpm'',
     ''mysql'', ''mysql2'', ''pg'', ''mongodb'', ''redis'', ''sqlite3'',
     ''shelljs'', ''node-cmd'', ''exec'', ''spawn-sync'']"

definition ALLOWED_MODULES :: "jsstring list" where
  "ALLOWED_MODULES = map js
    [''crypto'', ''util'', ''events'', ''stream'', ''buffer'',
     ''string_decoder'', ''querystring'', ''url'', ''path'',
     ''assert'', ''constants'', ''timers'', ''console'']"

text \<open>
  The state of the \<open>ModuleSecurityManager\<close> singleton: its violation log and, for each
  pattern object of \<open>DANGEROUS_PATTERNS\<close> (by index), that object's \<open>lastIndex\<close>.
\<close>

record ModuleSecurityManager =
  violations :: "SecurityViolation list"
  lastIndex :: "nat \<Rightarrow> nat"

definition new_ModuleSecurityManager :: ModuleSecurityManager where
  "new_ModuleSecurityManager = \<lparr>violations = [], lastIndex = (\<lambda>_. 0)\<rparr>"

definition pattern_violation :: "nat \<Rightarrow> int \<Rightarrow> jsstring \<Rightarrow> SecurityViolation" where
  "pattern_violation i now codeHash =
     \<lparr>sv_type = DANGEROUS_PATTERN, sv_severity = HIGH, sv_module = None, sv_pattern = Some i,
      sv_description = js ''Dangerous pattern detected in code'', sv_timestamp = now,
      sv_codeHash = Some codeHash\<rparr>"

definition size_violation :: "int \<Rightarrow> jsstring \<Rightarrow> SecurityViolation" where
  "size_violation now codeHash =
     \<lparr>sv_type = SUSPICIOUS_BEHAVIOR, sv_severity = MEDIUM, sv_module = None, sv_pattern = None,
      sv_description = js ''Code size exceeds reasonable limits'', sv_timestamp = now,
      sv_codeHash = Some codeHash\<rparr>"

text \<open>
  The \<open>forEach\<close> over the patterns: each \<open>pattern.test(code)\<close> reads and writes that
  pattern's \<open>lastIndex\<close>, and a hit appends a violation.
\<close>

fun scan_patterns ::
  "(nat \<times> re) list \<Rightarrow> jsstring \<Rightarrow> int \<Rightarrow> jsstring \<Rightarrow> (nat \<Rightarrow> nat)
     \<Rightarrow> SecurityViolation list \<times> (nat \<Rightarrow> nat)" where
  "scan_patterns [] code now h li = ([], li)"
| "scan_patterns ((i, p) # ps) code now h li =
     (let (hit, l') = regexp_test p code (li i);
          (vs, li') = scan_patterns ps code now h (li(i := l'))
      in ((if hit then [pattern_violation i now h] else []) @ vs, li'))"

record analysis =
  an_safe :: bool
  an_violations :: "SecurityViolation list"

text \<open>
  \<open>analyzeCode\<close>. The digest \<open>createHash('sha256').update(code).digest('hex')\<close> is the
  parameter \<open>sha256hex\<close>, the reading of \<open>new Date()\<close> is \<open>now\<close>.
\<close>

definition analyzeCode ::
  "(jsstring \<Rightarrow> jsstring) \<Rightarrow> int \<Rightarrow> ModuleSecurityManager \<Rightarrow> jsstring
     \<Rightarrow> ModuleSecurityManager \<times> analysis" where
  "analyzeCode sha256hex now m code =
     (let codeHash = sha256hex code;
          (found, li') =
             scan_patterns (zip [0..<length DANGEROUS_PATTERNS] DANGEROUS_PATTERNS)
               code now codeHash (lastIndex m);
          foundViolations =
             found @ (if length code > 50000 then [size_violation now codeHash] else [])
      in (m\<lparr>violations := violations m @ foundViolations, lastIndex := li'\<rparr>,
          \<lparr>an_safe =
             (length (filter (\<lambda>v. sv_severity v = CRITICAL \<or> sv_severity v = HIGH)
                        foundViolations) = 0),
           an_violations = foundViolations\<rparr>))"

definition mb_getViolations :: "ModuleSecurityManager \<Rightarrow> SecurityViolation list" where
  "mb_getViolations m = violations m"

definition mb_clearViolations :: "ModuleSecurityManager \<Rightarrow> ModuleSecurityManager" where
  "mb_clearViolations m = m\<lparr>violations := []\<rparr>"

text \<open>
  A module object is read through its properties: \<open>obj k\<close> is the value of property
  \<open>k\<close>, \<open>None\<close> where reading it gives \<open>undefined\<close>.
\<close>

type_synonym 'v module = "jsstring \<Rightarrow> 'v option"

definition pick :: "string list \<Rightarrow> 'v module \<Rightarrow> 'v module" where
  "pick ks original = (\<lambda>k. if k \<in> set (map js ks) then original k else None)"

definition createSecureModuleProxy :: "jsstring \<Rightarrow> 'v module \<Rightarrow> 'v module" where
  "createSecureModuleProxy moduleName originalModule =
     (if moduleName = js ''crypto'' then
        pick [''randomBytes'', ''createHash'', ''createHmac'', ''timingSafeEqual''] originalModule
      else if moduleName = js ''util'' then
        pick [''format'', ''inspect'', ''isArray'', ''isDate'', ''isError''] originalModule
      else if moduleName = js ''path'' then
        pick [''join'', ''resolve'', ''basename'', ''dirname'', ''extname'', ''parse'',
              ''format'', ''sep''] originalModule
      else originalModule)"

definition blocked_violation :: "jsstring \<Rightarrow> int \<Rightarrow> SecurityViolation" where
  "blocked_violation ident now =
     \<lparr>sv_type = BLOCKED_MODULE, sv_severity = CRITICAL, sv_module = Some ident, sv_pattern = None,
      sv_description = js ''Attempt to require blocked module: '' @ ident, sv_timestamp = now,
      sv_codeHash = None\<rparr>"

definition unlisted_violation :: "jsstring \<Rightarrow> int \<Rightarrow> SecurityViolation" where
  "unlisted_violation ident now =
     \<lparr>sv_type = BLOCKED_MODULE, sv_severity = HIGH, sv_module = Some ident, sv_pattern = None,
      sv_description = js ''Attempt to require unknown/restricted module: '' @ ident,
      sv_timestamp = now, sv_codeHash = None\<rparr>"

text \<open>
  The loader that \<open>overrideGlobalRequire\<close> wraps is \<open>global.require || require\<close>.
  Where \<open>global.require\<close> is defined (Node defines it for \<open>node -e\<close>, for the REPL and
  for a worker started with \<open>eval: true\<close>; a host may assign it) it is the
  \<open>require\<close> of another module: \<open>Loader f\<close>, with \<open>f\<close> giving what a call of it
  returns or throws. Otherwise it is this module's own \<open>require\<close>, which dispatches
  through \<open>module.require\<close>, and \<open>overrideGlobalRequire\<close> replaces
  \<open>module.require\<close> by \<open>secureRequire\<close>: \<open>OwnRequire\<close>, a call of which is a call
  of \<open>secureRequire\<close> again.
\<close>

datatype 'v loader = OwnRequire | Loader "jsstring \<Rightarrow> js_error + 'v module"

text \<open>The \<open>RangeError\<close> of a call for which no stack is left.\<close>

definition stack_overflow :: js_error where
  "stack_overflow = Error (js ''Maximum call stack size exceeded'')"

text \<open>
  \<open>secureRequire\<close>, the function \<open>overrideGlobalRequire\<close> installs as
  \<open>global.require\<close> and \<open>module.require\<close>. The first argument is the number of
  nested calls the stack still has room for.
\<close>

fun secureRequire ::
  "nat \<Rightarrow> 'v loader \<Rightarrow> int \<Rightarrow> ModuleSecurityManager \<Rightarrow> jsstring
     \<Rightarrow> ModuleSecurityManager \<times> (js_error + 'v module)" where
  "secureRequire 0 originalRequire now m ident = (m, Inl stack_overflow)"
| "secureRequire (Suc room) originalRequire now m ident =
     (if ident \<in> set BLOCKED_MODULES then
        (m\<lparr>violations := violations m @ [blocked_violation ident now]\<rparr>,
         Inl (Error (siren @ js '' SECURITY: Module '' @ [39] @ ident @ [39]
                       @ js '' is blocked for security reasons'')))
      else if ident \<in> set ALLOWED_MODULES then
        (case originalRequire of
           Loader f \<Rightarrow>
             (case f ident of
                Inl e \<Rightarrow> (m, Inl e)
              | Inr originalModule \<Rightarrow> (m, Inr (createSecureModuleProxy ident originalModule)))
         | OwnRequire \<Rightarrow>
             (case secureRequire room originalRequire now m ident of
                (m', Inl e) \<Rightarrow> (m', Inl e)
              | (m', Inr originalModule) \<Rightarrow>
                  (m', Inr (createSecureModuleProxy ident originalModule))))
      else
        (m\<lparr>violations := violations m @ [unlisted_violation ident now]\<rparr>,
         Inl (Error (siren @ js '' SECURITY: Module '' @ [39] @ ident @ [39]
                       @ js '' is not whitelisted''))))"

section \<open>The environment gate (environmentBlocker.ts)\<close>

record EnvironmentViolation =
  ev_type :: violation_type
  ev_severity :: level
  ev_variable :: "jsstring option"
  ev_description :: jsstring
  ev_timestamp :: int

definition SENSITIVE_VARS :: "jsstring list" where
  "SENSITIVE_VARS = map js
    [''API_KEY'', ''API_SECRET'', ''API_TOKEN'', ''ACCESS_TOKEN'', ''SECRET_KEY'',
     ''JWT_SECRET'', ''JWT_KEY'', ''OAUTH_SECRET'', ''GITHUB_TOKEN'', ''SLACK_TOKEN'',
     ''DATABASE_URL'', ''DB_PASSWORD'', ''DB_USER'', ''DB_HOST'', ''DB_CONNECTION'',
     ''MYSQL_PASSWORD'', ''POSTGRES_PASSWORD'', ''MONGODB_URI'', ''REDIS_PASSWORD'',
     ''AWS_ACCESS_KEY_ID'', ''AWS_SECRET_ACCESS_KEY'', ''AWS_SESSION_TOKEN'',
     ''GOOGLE_APPLICATION_CREDENTIALS'', ''AZURE_CLIENT_SECRET'', ''FIREBASE_CONFIG'',
     ''SESSION_SECRET'', ''ENCRYPTION_KEY'', ''PRIVATE_KEY'', ''CERTIFICATE'',
     ''WEBHOOK_SECRET'', ''STRIPE_SECRET_KEY'', ''TWILIO_AUTH_TOKEN'',
     ''HOME'', ''USER'', ''USERNAME'', ''HOSTNAME'', ''PWD'', ''PATH'',
     ''SHELL'', ''TERM'', ''SSH_AUTH_SOCK'', ''SSH_CLIENT'', ''SSH_CONNECTION'']"

definition ALLOWED_VARS :: "jsstring list" where
  "ALLOWED_VARS = map js [''NODE_ENV'', ''NODE_VERSION'', ''TZ'', ''LANG'', ''LC_ALL'']"

text \<open>
  The \<open>EnvironmentBlocker\<close> singleton: its violation log and the copy of
  \<open>process.env\<close> taken by the constructor.
\<close>

record EnvironmentBlocker =
  env_violations :: "EnvironmentViolation list"
  originalProcessEnv :: "jsstring \<rightharpoonup> jsstring"

text \<open>A property key of the proxy is a string or a symbol.\<close>

datatype property_key = Str jsstring | Sym

text \<open>
  The \<open>get\<close> trap of the proxy that replaces \<open>process.env\<close>. \<open>toUpperCase\<close> is
  \<open>String.prototype.toUpperCase\<close>, a parameter; the result is the value read (\<open>None\<close>
  for \<open>undefined\<close>) or the error thrown.
\<close>

definition env_get ::
  "(jsstring \<Rightarrow> jsstring) \<Rightarrow> int \<Rightarrow> EnvironmentBlocker \<Rightarrow> property_key
     \<Rightarrow> EnvironmentBlocker \<times> (js_error + jsstring option)" where
  "env_get toUpperCase now b key =
     (case key of
        Sym \<Rightarrow> (b, Inr None)
      | Str prop \<Rightarrow>
          if toUpperCase prop \<in> set SENSITIVE_VARS then
            (b\<lparr>env_violations := env_violations b @
                 [\<lparr>ev_type = SENSITIVE_VAR_ACCESS, ev_severity = CRITICAL,
                   ev_variable = Some prop,
                   ev_description =
                     js ''Attempt to access sensitive environment variable: '' @ prop,
                   ev_timestamp = now\<rparr>]\<rparr>,
             Inl (Error (js ''Access to environment variable '' @ [39] @ prop @ [39]
                           @ js '' is blocked for security reasons'')))
          else if toUpperCase prop \<in> set ALLOWED_VARS then
            (b, Inr (originalProcessEnv b prop))
          else
            (b\<lparr>env_violations := env_violations b @
                 [\<lparr>ev_type = ENV_ACCESS_BLOCKED, ev_severity = HIGH,
                   ev_variable = Some prop,
                   ev_description =
                     js ''Attempt to access non-whitelisted environment variable: '' @ prop,
                   ev_timestamp = now\<rparr>]\<rparr>,
             Inr None))"

definition env_getViolations :: "EnvironmentBlocker \<Rightarrow> EnvironmentViolation list" where
  "env_getViolations b = env_violations b"

definition env_clearViolations :: "EnvironmentBlocker \<Rightarrow> EnvironmentBlocker" where
  "env_clearViolations b = b\<lparr>env_violations := []\<rparr>"

text \<open>
  \<open>createSafeEnvironment\<close>: the loop over \<open>ALLOWED_VARS\<close> copies the variables that
  are defined, then the two defaults are stored.
\<close>

definition createSafeEnvironment :: "EnvironmentBlocker \<Rightarrow> (jsstring \<rightharpoonup> jsstring)" where
  "createSafeEnvironment b =
     (let safeEnv =
            foldl (\<lambda>env varName.
                     case originalProcessEnv b varName of
                       None \<Rightarrow> env
                     | Some v \<Rightarrow> env(varName \<mapsto> v))
                  Map.empty ALLOWED_VARS
      in safeEnv(js ''NODE_ENV'' \<mapsto> js ''sandbox'', js ''SANDBOX'' \<mapsto> js ''true''))"

section \<open>Readings of the runtime\<close>

text \<open>
  What \<open>process.memoryUsage()\<close>, \<open>process.cpuUsage()\<close> (microseconds) and
  \<open>Date.now()\<close> return at one moment. The readings taken in one synchronous stretch of
  code are one \<open>ambient\<close> value.
\<close>

record MemoryUsage =
  mu_heapUsed :: int
  mu_heapTotal :: int
  mu_rss :: int
  mu_external :: int
  mu_arrayBuffers :: int

record ambient =
  date_now :: int
  memoryUsage :: MemoryUsage
  cpu_user :: int
  cpu_system :: int

section \<open>The memory monitor (memoryMonitor.ts)\<close>

record MemoryLimits =
  maxHeapSize :: int
  maxRssSize :: int
  maxArrayBufferSize :: int
  mm_checkInterval :: int

record MemoryMetrics =
  heapUsed :: int
  heapTotal :: int
  rss :: int
  external :: int
  arrayBuffers :: int
  peakHeapUsed :: int
  peakRss :: int
  mt_timestamp :: int

text \<open>
  \<open>monitoringInterval\<close> tells whether the interval timer is armed (\<open>null\<close> is
  \<open>False\<close>).
\<close>

record MemoryMonitor =
  limits :: MemoryLimits
  monitoringInterval :: bool
  memoryHistory :: "MemoryMetrics list"
  mm_violations :: "MemoryViolation list"
  isMonitoring :: bool
  peakMetrics :: MemoryMetrics

definition createEmptyMetrics :: "int \<Rightarrow> MemoryMetrics" where
  "createEmptyMetrics now =
     \<lparr>heapUsed = 0, heapTotal = 0, rss = 0, external = 0, arrayBuffers = 0,
      peakHeapUsed = 0, peakRss = 0, mt_timestamp = now\<rparr>"

definition new_MemoryMonitor :: "MemoryLimits \<Rightarrow> int \<Rightarrow> MemoryMonitor" where
  "new_MemoryMonitor l now =
     \<lparr>limits = l, monitoringInterval = False, memoryHistory = [], mm_violations = [],
      isMonitoring = False, peakMetrics = createEmptyMetrics now\<rparr>"

text \<open>
  \<open>handleViolation\<close> throws for a CRITICAL violation and only logs a HIGH one. The
  garbage collection it forces first is not modelled.
\<close>

definition handleViolation :: "MemoryViolation \<Rightarrow> js_error option" where
  "handleViolation v =
     (if mv_severity v = CRITICAL
      then Some (Error (js ''Memory limit exceeded: '' @ mv_description v))
      else None)"

text \<open>
  \<open>checkLimits\<close>: the three checks in order; a CRITICAL violation is pushed and then
  thrown, which skips the checks after it. \<open>formatBytes\<close> (floating-point formatting)
  is a parameter.
\<close>

definition checkLimits ::
  "(int \<Rightarrow> jsstring) \<Rightarrow> MemoryMonitor \<Rightarrow> MemoryMetrics \<Rightarrow> MemoryMonitor \<times> js_error option" where
  "checkLimits formatBytes mm metrics =
     (if heapUsed metrics > maxHeapSize (limits mm) then
        (let v = \<lparr>mv_type = HEAP_LIMIT_EXCEEDED, mv_severity = CRITICAL,
                   mv_limit = maxHeapSize (limits mm), mv_actual = heapUsed metrics,
                   mv_timestamp = mt_timestamp metrics,
                   mv_description = js ''Heap memory exceeded limit: ''
                     @ formatBytes (heapUsed metrics) @ js '' > ''
                     @ formatBytes (maxHeapSize (limits mm))\<rparr>
         in (mm\<lparr>mm_violations := mm_violations mm @ [v]\<rparr>, handleViolation v))
      else if rss metrics > maxRssSize (limits mm) then
        (let v = \<lparr>mv_type = RSS_LIMIT_EXCEEDED, mv_severity = CRITICAL,
                   mv_limit = maxRssSize (limits mm), mv_actual = rss metrics,
                   mv_timestamp = mt_timestamp metrics,
                   mv_description = js ''RSS memory exceeded limit: ''
                     @ formatBytes (rss metrics) @ js '' > ''
                     @ formatBytes (maxRssSize (limits mm))\<rparr>
         in (mm\<lparr>mm_violations := mm_violations mm @ [v]\<rparr>, handleViolation v))
      else if arrayBuffers metrics > maxArrayBufferSize (limits mm) then
        (let v = \<lparr>mv_type = ARRAY_BUFFER_LIMIT_EXCEEDED, mv_severity = HIGH,
                   mv_limit = maxArrayBufferSize (limits mm), mv_actual = arrayBuffers metrics,
                   mv_timestamp = mt_timestamp metrics,
                   mv_description = js ''ArrayBuffer memory exceeded limit: ''
                     @ formatBytes (arrayBuffers metrics) @ js '' > ''
                     @ formatBytes (maxArrayBufferSize (limits mm))\<rparr>
         in (mm\<lparr>mm_violations := mm_violations mm @ [v]\<rparr>, handleViolation v))
      else (mm, None))"

text \<open>The decimal text of an integer, as a template literal prints it.\<close>

fun digits :: "nat \<Rightarrow> jsstring" where
  "digits n = (if n < 10 then [48 + n] else digits (n div 10) @ [48 + n mod 10])"

definition number_text :: "int \<Rightarrow> jsstring" where
  "number_text i = (if i < 0 then [45] @ digits (nat (- i)) else digits (nat i))"

definition checkMemoryGrowthAnomalies ::
  "(int \<Rightarrow> jsstring) \<Rightarrow> MemoryMonitor \<Rightarrow> MemoryMetrics \<Rightarrow> MemoryMonitor" where
  "checkMemoryGrowthAnomalies formatBytes mm metrics =
     (if length (memoryHistory mm) < 10 then mm
      else
        (let oldestRecent = memoryHistory mm ! (length (memoryHistory mm) - 10);
             timeDiff = mt_timestamp metrics - mt_timestamp oldestRecent;
             heapGrowth = heapUsed metrics - heapUsed oldestRecent
         in if timeDiff < 5000 \<and> heapGrowth > 50 * 1024 * 1024 then
              mm\<lparr>mm_violations := mm_violations mm @
                   [\<lparr>mv_type = MEMORY_GROWTH_ANOMALY, mv_severity = HIGH,
                     mv_limit = 50 * 1024 * 1024, mv_actual = heapGrowth,
                     mv_timestamp = mt_timestamp metrics,
                     mv_description = js ''Suspicious rapid memory growth: ''
                       @ formatBytes heapGrowth @ js '' in '' @ number_text timeDiff
                       @ js ''ms''\<rparr>]\<rparr>
            else mm))"

text \<open>
  \<open>checkMemoryUsage\<close> in three steps: the metrics of the sample, the update of the peak
  values and of the history (at most 100 entries, the oldest dropped), and the two checks.
\<close>

definition sample_metrics :: "MemoryMonitor \<Rightarrow> ambient \<Rightarrow> MemoryMetrics" where
  "sample_metrics mm amb =
     (let u = memoryUsage amb
      in \<lparr>heapUsed = mu_heapUsed u, heapTotal = mu_heapTotal u, rss = mu_rss u,
          external = mu_external u, arrayBuffers = mu_arrayBuffers u,
          peakHeapUsed = max (peakHeapUsed (peakMetrics mm)) (mu_heapUsed u),
          peakRss = max (peakRss (peakMetrics mm)) (mu_rss u),
          mt_timestamp = date_now amb\<rparr>)"

definition record_sample :: "MemoryMonitor \<Rightarrow> MemoryMetrics \<Rightarrow> MemoryMonitor" where
  "record_sample mm metrics =
     (let h = memoryHistory mm @ [metrics]
      in mm\<lparr>peakMetrics := (peakMetrics mm)\<lparr>peakHeapUsed := peakHeapUsed metrics,
                                               peakRss := peakRss metrics\<rparr>,
             memoryHistory := (if length h > 100 then tl h else h)\<rparr>)"

definition checkMemoryUsage ::
  "(int \<Rightarrow> jsstring) \<Rightarrow> MemoryMonitor \<Rightarrow> ambient \<Rightarrow> MemoryMonitor \<times> js_error option" where
  "checkMemoryUsage formatBytes mm amb =
     (let metrics = sample_metrics mm amb;
          mm2 = record_sample mm metrics
      in case checkLimits formatBytes mm2 metrics of
           (mm3, Some e) \<Rightarrow> (mm3, Some e)
         | (mm3, None) \<Rightarrow> (checkMemoryGrowthAnomalies formatBytes mm3 metrics, None))"

text \<open>
  \<open>startMonitoring\<close>; the initial \<open>checkMemoryUsage()\<close> can throw, and then the
  monitor stays switched on.
\<close>

definition startMonitoring ::
  "(int \<Rightarrow> jsstring) \<Rightarrow> MemoryMonitor \<Rightarrow> ambient \<Rightarrow> MemoryMonitor \<times> js_error option" where
  "startMonitoring formatBytes mm amb =
     (if isMonitoring mm then (mm, None)
      else checkMemoryUsage formatBytes
             (mm\<lparr>isMonitoring := True, memoryHistory := [], mm_violations := [],
                 peakMetrics := createEmptyMetrics (date_now amb),
                 monitoringInterval := True\<rparr>) amb)"

definition stopMonitoring :: "MemoryMonitor \<Rightarrow> ambient \<Rightarrow> MemoryMonitor \<times> MemoryMetrics" where
  "stopMonitoring mm amb =
     (if \<not> isMonitoring mm then (mm, createEmptyMetrics (date_now amb))
      else (mm\<lparr>isMonitoring := False, monitoringInterval := False\<rparr>, peakMetrics mm))"

definition getCurrentMemoryUsage :: "MemoryMonitor \<Rightarrow> ambient \<Rightarrow> MemoryMetrics" where
  "getCurrentMemoryUsage mm amb =
     (let u = memoryUsage amb
      in \<lparr>heapUsed = mu_heapUsed u, heapTotal = mu_heapTotal u, rss = mu_rss u,
          external = mu_external u, arrayBuffers = mu_arrayBuffers u,
          peakHeapUsed = peakHeapUsed (peakMetrics mm), peakRss = peakRss (peakMetrics mm),
          mt_timestamp = date_now amb\<rparr>)"

definition isMemoryUsageSafe :: "MemoryMonitor \<Rightarrow> ambient \<Rightarrow> bool" where
  "isMemoryUsageSafe mm amb =
     (let current = getCurrentMemoryUsage mm amb
      in heapUsed current \<le> maxHeapSize (limits mm) \<and> rss current \<le> maxRssSize (limits mm)
         \<and> arrayBuffers current \<le> maxArrayBufferSize (limits mm))"

section \<open>The timeout manager (timeoutManager.ts)\<close>

record TimeoutConfig =
  maxExecutionTime :: int
  maxCpuTime :: int
  checkInterval :: int

record ExecutionMetrics =
  startTime :: int
  endTime :: "int option"
  executionTime :: int
  cpuUsage :: rat
  memoryPeak :: int
  timedOut :: bool
  reason :: "jsstring option"

text \<open>
  An entry of \<open>activeExecutions\<close>. Its metrics object is shared with the caller that
  \<open>startExecution\<close> returned it to, so the entry holds a reference into
  \<open>metricsHeap\<close>. \<open>ae_worker\<close> tells whether a worker was attached. The two timer
  handles are not stored: a callback of a timer that is still armed reaches the manager as
  a \<open>timer_event\<close>.
\<close>

record ActiveExecution =
  ae_startTime :: int
  ae_worker :: bool
  ae_metrics :: nat

record TimeoutManager =
  tm_config :: TimeoutConfig
  activeExecutions :: "jsstring \<rightharpoonup> ActiveExecution"
  metricsHeap :: "nat \<Rightarrow> ExecutionMetrics"
  nextRef :: nat

definition empty_metrics :: ExecutionMetrics where
  "empty_metrics =
     \<lparr>startTime = 0, endTime = None, executionTime = 0, cpuUsage = 0, memoryPeak = 0,
      timedOut = False, reason = None\<rparr>"

definition new_TimeoutManager :: "TimeoutConfig \<Rightarrow> TimeoutManager" where
  "new_TimeoutManager c =
     \<lparr>tm_config = c, activeExecutions = Map.empty, metricsHeap = (\<lambda>_. empty_metrics),
      nextRef = 0\<rparr>"

definition startExecution ::
  "TimeoutManager \<Rightarrow> jsstring \<Rightarrow> bool \<Rightarrow> int \<Rightarrow> TimeoutManager \<times> nat" where
  "startExecution tm executionId worker now =
     (let r = nextRef tm;
          metrics = \<lparr>startTime = now, endTime = None, executionTime = 0, cpuUsage = 0,
                     memoryPeak = 0, timedOut = False, reason = None\<rparr>
      in (tm\<lparr>metricsHeap := (metricsHeap tm)(r := metrics),
              nextRef := Suc r,
              activeExecutions := (activeExecutions tm)
                (executionId \<mapsto> \<lparr>ae_startTime = now, ae_worker = worker, ae_metrics = r\<rparr>)\<rparr>,
          r))"

definition stopExecution ::
  "TimeoutManager \<Rightarrow> jsstring \<Rightarrow> int \<Rightarrow> TimeoutManager \<times> nat option" where
  "stopExecution tm executionId now =
     (case activeExecutions tm executionId of
        None \<Rightarrow> (tm, None)
      | Some execution \<Rightarrow>
          (let r = ae_metrics execution;
               m = (metricsHeap tm r)\<lparr>endTime := Some now,
                                      executionTime := now - ae_startTime execution\<rparr>
           in (tm\<lparr>metricsHeap := (metricsHeap tm)(r := m),
                   activeExecutions := (activeExecutions tm)(executionId := None)\<rparr>,
               Some r)))"

text \<open>
  \<open>terminateExecution\<close>. Terminating the worker and emitting the
  \<open>execution-terminated\<close> event leave the manager's state as it is.
\<close>

definition terminateExecution ::
  "TimeoutManager \<Rightarrow> jsstring \<Rightarrow> jsstring \<Rightarrow> int \<Rightarrow> TimeoutManager \<times> bool" where
  "terminateExecution tm executionId why now =
     (case activeExecutions tm executionId of
        None \<Rightarrow> (tm, False)
      | Some execution \<Rightarrow>
          (let r = ae_metrics execution;
               m = (metricsHeap tm r)\<lparr>endTime := Some now,
                                      executionTime := now - ae_startTime execution,
                                      timedOut := True, reason := Some why\<rparr>
           in (tm\<lparr>metricsHeap := (metricsHeap tm)(r := m),
                   activeExecutions := (activeExecutions tm)(executionId := None)\<rparr>,
               True)))"

definition checkResourceUsage :: "TimeoutManager \<Rightarrow> jsstring \<Rightarrow> ambient \<Rightarrow> TimeoutManager" where
  "checkResourceUsage tm executionId amb =
     (case activeExecutions tm executionId of
        None \<Rightarrow> tm
      | Some execution \<Rightarrow>
          (let r = ae_metrics execution;
               elapsed = date_now amb - ae_startTime execution;
               tm1 = tm\<lparr>metricsHeap :=
                         (metricsHeap tm)(r := (metricsHeap tm r)\<lparr>executionTime := elapsed\<rparr>)\<rparr>
           in if elapsed > maxExecutionTime (tm_config tm1) then
                fst (terminateExecution tm1 executionId (js ''MAX_EXECUTION_TIME_EXCEEDED'')
                       (date_now amb))
              else
                (let h = mu_heapUsed (memoryUsage amb);
                     tm2 = (if ae_worker execution then
                              tm1\<lparr>metricsHeap := (metricsHeap tm1)
                                    (r := (metricsHeap tm1 r)
                                       \<lparr>memoryPeak := max (memoryPeak (metricsHeap tm1 r)) h\<rparr>)\<rparr>
                            else tm1)
                 in if ae_worker execution \<and> h > 256 * 1024 * 1024 then
                      fst (terminateExecution tm2 executionId (js ''MEMORY_LIMIT_EXCEEDED'')
                             (date_now amb))
                    else
                      (let cpuTimeMs = of_int (cpu_user amb + cpu_system amb) / 1000;
                           tm3 = tm2\<lparr>metricsHeap := (metricsHeap tm2)
                                     (r := (metricsHeap tm2 r)\<lparr>cpuUsage := cpuTimeMs\<rparr>)\<rparr>
                       in if cpuTimeMs > of_int (maxCpuTime (tm_config tm3)) then
                            fst (terminateExecution tm3 executionId (js ''CPU_TIME_EXCEEDED'')
                                   (date_now amb))
                          else tm3))))"

text \<open>
  The callbacks that run while a caller awaits: the deadline timer of an execution
  (\<open>terminateExecution(id, 'EXECUTION_TIMEOUT')\<close>), the sampling timer of an execution
  (\<open>checkResourceUsage(id)\<close>), and the memory monitor's sampling timer. Each carries the
  readings of the moment it runs.
\<close>

datatype timer_event =
    Deadline jsstring ambient
  | Sample jsstring ambient
  | MemorySample ambient

fun tm_event :: "TimeoutManager \<Rightarrow> timer_event \<Rightarrow> TimeoutManager" where
  "tm_event tm (Deadline i amb) =
     fst (terminateExecution tm i (js ''EXECUTION_TIMEOUT'') (date_now amb))"
| "tm_event tm (Sample i amb) = checkResourceUsage tm i amb"
| "tm_event tm (MemorySample amb) = tm"

text \<open>
  What the promise returned by the executor does: it resolves or rejects after some
  milliseconds, or never settles.
\<close>

datatype 'a settle = Resolves int 'a | Rejects int js_error | NeverSettles

text \<open>A number or \<open>undefined\<close> in a condition: \<open>undefined\<close> and 0 are falsy.\<close>

definition truthy :: "int option \<Rightarrow> bool" where
  "truthy v = (case v of None \<Rightarrow> False | Some n \<Rightarrow> n \<noteq> 0)"

text \<open>\<open>v || d\<close> for a number or \<open>undefined\<close> \<open>v\<close>.\<close>

definition or_else :: "int option \<Rightarrow> int \<Rightarrow> int" where
  "or_else v d = (case v of None \<Rightarrow> d | Some n \<Rightarrow> if n \<noteq> 0 then n else d)"

definition error_message :: "js_error \<Rightarrow> jsstring \<Rightarrow> jsstring" where
  "error_message e fallback = (case e of Error m \<Rightarrow> m | NonError \<Rightarrow> fallback)"

record 'a timeout_result =
  tr_result :: "'a option"
  tr_metrics :: ExecutionMetrics
  tr_success :: bool
  tr_error :: "jsstring option"

text \<open>
  The delay \<open>setTimeout\<close> really waits: a delay below 1 or above \<open>2^31 - 1\<close>
  milliseconds is replaced by 1.
\<close>

definition timer_delay :: "int \<Rightarrow> int" where
  "timer_delay ms = (if ms < 1 \<or> ms > 2147483647 then 1 else ms)"

text \<open>
  The race of \<open>executeWithTimeout\<close>: the executor's promise wins when it settles before
  the timer set for \<open>maxExecutionTime\<close> milliseconds fires (so a promise that is settled
  already always wins), else the timer rejects with \<open>Execution timeout\<close>.
\<close>

definition race :: "'a settle \<Rightarrow> int \<Rightarrow> js_error + 'a" where
  "race b limit =
     (case b of
        Resolves t v \<Rightarrow>
          if t < timer_delay limit then Inr v else Inl (Error (js ''Execution timeout''))
      | Rejects t e \<Rightarrow>
          if t < timer_delay limit then Inl e else Inl (Error (js ''Execution timeout''))
      | NeverSettles \<Rightarrow> Inl (Error (js ''Execution timeout'')))"

text \<open>
  \<open>executeWithTimeout\<close>. \<open>at_start\<close> is the clock when the call begins, \<open>events\<close>
  are the timer callbacks that run during the \<open>await\<close>, \<open>at_end\<close> is the clock when
  the race is decided. The \<open>finally\<close> block is the last update of the configuration.
\<close>

definition executeWithTimeout ::
  "TimeoutManager \<Rightarrow> jsstring \<Rightarrow> 'a settle \<Rightarrow> int option \<Rightarrow> int \<Rightarrow> timer_event list \<Rightarrow> int
     \<Rightarrow> TimeoutManager \<times> 'a timeout_result" where
  "executeWithTimeout tm executionId execution customTimeout at_start events at_end =
     (let originalTimeout = maxExecutionTime (tm_config tm);
          tm1 = (case customTimeout of
                   None \<Rightarrow> tm
                 | Some t \<Rightarrow>
                     if truthy customTimeout
                     then tm\<lparr>tm_config := (tm_config tm)\<lparr>maxExecutionTime := t\<rparr>\<rparr>
                     else tm);
          (tm2, metrics) = startExecution tm1 executionId False at_start;
          outcome = race execution (maxExecutionTime (tm_config tm2));
          tm3 = foldl tm_event tm2 events;
          (tm4, stopped) = stopExecution tm3 executionId at_end;
          finalMetrics = (case stopped of Some r \<Rightarrow> r | None \<Rightarrow> metrics);
          (tm5, res) =
            (case outcome of
               Inr v \<Rightarrow>
                 (tm4, \<lparr>tr_result = Some v, tr_metrics = metricsHeap tm4 finalMetrics,
                        tr_success = True, tr_error = None\<rparr>)
             | Inl e \<Rightarrow>
                 (let m = (metricsHeap tm4 finalMetrics)
                            \<lparr>timedOut := True,
                             reason := Some (error_message e (js ''Unknown error''))\<rparr>
                  in (tm4\<lparr>metricsHeap := (metricsHeap tm4)(finalMetrics := m)\<rparr>,
                      \<lparr>tr_result = None, tr_metrics = m, tr_success = False,
                       tr_error = Some (error_message e (js ''Unknown error''))\<rparr>)))
      in ((if truthy customTimeout
           then tm5\<lparr>tm_config := (tm_config tm5)\<lparr>maxExecutionTime := originalTimeout\<rparr>\<rparr>
           else tm5),
          res))"

section \<open>The coordinator (securityManager.ts)\<close>

record SecurityConfig =
  enableModuleBlocking :: bool
  enableEnvironmentBlocking :: bool
  enableTimeoutManagement :: bool
  enableMemoryMonitoring :: bool
  sc_maxExecutionTime :: int
  maxMemoryUsage :: int
  strictMode :: bool

record ReportViolation =
  rv_type :: violation_type
  rv_severity :: level
  rv_description :: jsstring
  rv_module :: "jsstring option"

record MemoryUsageReport =
  mr_peak :: int
  mr_current :: int
  mr_safe :: bool

record SecurityReport =
  rp_executionId :: jsstring
  rp_timestamp :: int
  rp_safe :: bool
  riskLevel :: level
  rp_violations :: "ReportViolation list"
  rp_memoryUsage :: MemoryUsageReport
  rp_executionTime :: int
  securityScore :: int

record SecureExecutionContext =
  executionId :: jsstring
  code :: jsstring
  language :: jsstring
  timeout :: "int option"
  memoryLimit :: "int option"

text \<open>
  The state \<open>executeSecurely\<close> works on: the fields of \<open>MainSecurityManager\<close> and the
  two singletons it imports, \<open>moduleBlocker\<close> and \<open>environmentBlocker\<close>.
  \<open>executor_calls\<close> is not a field of the source: it counts the calls of the
  \<open>executor\<close> callback, so that a theorem can say that none was made.
\<close>

record MainSecurityManager =
  moduleBlocker :: ModuleSecurityManager
  environmentBlocker :: EnvironmentBlocker
  timeoutManager :: TimeoutManager
  memoryMonitor :: MemoryMonitor
  config :: SecurityConfig
  initialized :: bool
  executor_calls :: nat

definition default_config :: SecurityConfig where
  "default_config =
     \<lparr>enableModuleBlocking = True, enableEnvironmentBlocking = True,
      enableTimeoutManagement = True, enableMemoryMonitoring = True,
      sc_maxExecutionTime = 30000, maxMemoryUsage = 128 * 1024 * 1024, strictMode = True\<rparr>"

text \<open>The manager as its constructor builds it, over a given copy of the environment.\<close>

definition new_MainSecurityManager :: "(jsstring \<rightharpoonup> jsstring) \<Rightarrow> int \<Rightarrow> MainSecurityManager" where
  "new_MainSecurityManager env now =
     \<lparr>moduleBlocker = new_ModuleSecurityManager,
      environmentBlocker = \<lparr>env_violations = [], originalProcessEnv = env\<rparr>,
      timeoutManager =
        new_TimeoutManager
          \<lparr>maxExecutionTime = sc_maxExecutionTime default_config, maxCpuTime = 20000,
           checkInterval = 1000\<rparr>,
      memoryMonitor =
        new_MemoryMonitor
          \<lparr>maxHeapSize = maxMemoryUsage default_config, maxRssSize = 256 * 1024 * 1024,
           maxArrayBufferSize = 64 * 1024 * 1024, mm_checkInterval = 500\<rparr> now,
      config = default_config,
      initialized = False,
      executor_calls = 0\<rparr>"

definition of_security_violation :: "SecurityViolation \<Rightarrow> ReportViolation" where
  "of_security_violation v =
     \<lparr>rv_type = sv_type v, rv_severity = sv_severity v, rv_description = sv_description v,
      rv_module = sv_module v\<rparr>"

definition of_environment_violation :: "EnvironmentViolation \<Rightarrow> ReportViolation" where
  "of_environment_violation v =
     \<lparr>rv_type = ev_type v, rv_severity = ev_severity v, rv_description = ev_description v,
      rv_module = None\<rparr>"

definition count_severity :: "level \<Rightarrow> ReportViolation list \<Rightarrow> int" where
  "count_severity l vs = int (length (filter (\<lambda>v. rv_severity v = l) vs))"

text \<open>
  \<open>createSecurityReport\<close>. \<open>amb\<close> gives \<open>Date.now()\<close> and the memory reading of
  \<open>isMemoryUsageSafe()\<close>. The parameter \<open>timeoutMetrics\<close> is not read, as in the source.
\<close>

definition createSecurityReport ::
  "MainSecurityManager \<Rightarrow> jsstring \<Rightarrow> SecurityViolation list \<Rightarrow> int \<Rightarrow> MemoryMetrics option
     \<Rightarrow> ExecutionMetrics option \<Rightarrow> ambient \<Rightarrow> SecurityReport" where
  "createSecurityReport st ident codeViolations start memoryMetrics timeoutMetrics amb =
     (let endTime = date_now amb;
          allViolations =
            map of_security_violation codeViolations
            @ map of_security_violation (mb_getViolations (moduleBlocker st))
            @ map of_environment_violation (env_getViolations (environmentBlocker st));
          criticalCount = count_severity CRITICAL allViolations;
          highCount = count_severity HIGH allViolations;
          mediumCount = count_severity MEDIUM allViolations;
          risk = (if criticalCount > 0 then CRITICAL
                  else if highCount > 2 then HIGH
                  else if highCount > 0 \<or> mediumCount > 3 then MEDIUM
                  else LOW);
          score = max 0 (100 - criticalCount * 50 - highCount * 20 - mediumCount * 10)
      in \<lparr>rp_executionId = ident,
          rp_timestamp = date_now amb,
          rp_safe = (criticalCount = 0 \<and> highCount = 0),
          riskLevel = risk,
          rp_violations = allViolations,
          rp_memoryUsage =
            \<lparr>mr_peak = (case memoryMetrics of None \<Rightarrow> 0 | Some m \<Rightarrow> peakHeapUsed m),
             mr_current = (case memoryMetrics of None \<Rightarrow> 0 | Some m \<Rightarrow> heapUsed m),
             mr_safe = isMemoryUsageSafe (memoryMonitor st) amb\<rparr>,
          rp_executionTime = endTime - start,
          securityScore = score\<rparr>)"

text \<open>\<open>emergencyCleanup\<close>; none of its steps throws, so its \<open>catch\<close> is never entered.\<close>

definition emergencyCleanup :: "MainSecurityManager \<Rightarrow> jsstring \<Rightarrow> ambient \<Rightarrow> MainSecurityManager" where
  "emergencyCleanup st ident amb =
     st\<lparr>timeoutManager :=
          fst (terminateExecution (timeoutManager st) ident (js ''EMERGENCY_CLEANUP'')
                 (date_now amb)),
        memoryMonitor := fst (stopMonitoring (memoryMonitor st) amb)\<rparr>"

text \<open>
  One run of the \<open>executor\<close> callback: how its promise settles, and the violations the
  gates record in the two shared logs while it runs (none when the unit works in a worker
  thread with module instances of its own).
\<close>

record 'a unit_run =
  ur_settle :: "'a settle"
  ur_module_violations :: "SecurityViolation list"
  ur_env_violations :: "EnvironmentViolation list"

definition invoke_executor :: "MainSecurityManager \<Rightarrow> 'a unit_run \<Rightarrow> MainSecurityManager" where
  "invoke_executor st ex =
     st\<lparr>moduleBlocker := (moduleBlocker st)
          \<lparr>violations := violations (moduleBlocker st) @ ur_module_violations ex\<rparr>,
        environmentBlocker := (environmentBlocker st)
          \<lparr>env_violations := env_violations (environmentBlocker st) @ ur_env_violations ex\<rparr>,
        executor_calls := Suc (executor_calls st)\<rparr>"

text \<open>
  What the surroundings decide during one call: the readings when it starts, the timer
  callbacks that run while it awaits the executor, the readings when it resumes.
\<close>

record world =
  at_entry :: ambient
  timer_events :: "timer_event list"
  at_exit :: ambient

text \<open>
  The memory monitor's samples among the timer callbacks. A sample is taken only while the
  interval is armed; a CRITICAL breach throws inside the timer callback, where no caller
  can catch it.
\<close>

fun memory_samples ::
  "(int \<Rightarrow> jsstring) \<Rightarrow> MemoryMonitor \<Rightarrow> timer_event list \<Rightarrow> MemoryMonitor \<times> js_error option" where
  "memory_samples f mm [] = (mm, None)"
| "memory_samples f mm (MemorySample amb # evs) =
     (if monitoringInterval mm then
        (case checkMemoryUsage f mm amb of
           (mm', Some e) \<Rightarrow> (mm', Some e)
         | (mm', None) \<Rightarrow> memory_samples f mm' evs)
      else memory_samples f mm evs)"
| "memory_samples f mm (_ # evs) = memory_samples f mm evs"

record 'a secure_result =
  sr_result :: "'a option"
  securityReport :: SecurityReport
  success :: bool
  sr_error :: "jsstring option"

text \<open>
  How a call of \<open>executeSecurely\<close> ends: its promise resolves with a result, it rejects
  with an error (the \<open>throw\<close> of an \<open>async\<close> function), an exception escapes from a
  timer callback while it waits, or it waits for ever.
\<close>

datatype 'a completion =
    Returned MainSecurityManager "'a secure_result"
  | Thrown MainSecurityManager js_error
  | Uncaught js_error
  | Pending

text \<open>The part of \<open>executeSecurely\<close> after the static analysis and the start of the monitors.\<close>

definition run_monitored ::
  "(int \<Rightarrow> jsstring) \<Rightarrow> MainSecurityManager \<Rightarrow> SecureExecutionContext
     \<Rightarrow> SecurityViolation list \<Rightarrow> int \<Rightarrow> 'a unit_run \<Rightarrow> world \<Rightarrow> 'a completion" where
  "run_monitored formatBytes st context codeViolations start executor w =
     (let st1 = invoke_executor st executor
      in case memory_samples formatBytes (memoryMonitor st1) (timer_events w) of
           (mm, Some e) \<Rightarrow> Uncaught e
         | (mm, None) \<Rightarrow>
             (let st2 = st1\<lparr>memoryMonitor := mm\<rparr>
              in if enableTimeoutManagement (config st2) then
                   (let (tm, r) =
                          executeWithTimeout (timeoutManager st2) (executionId context)
                            (ur_settle executor)
                            (Some (or_else (timeout context) (sc_maxExecutionTime (config st2))))
                            (date_now (at_entry w)) (timer_events w) (date_now (at_exit w));
                        st3 = st2\<lparr>timeoutManager := tm\<rparr>;
                        (mm', finalMemoryMetrics) =
                          (if enableMemoryMonitoring (config st3)
                           then (case stopMonitoring (memoryMonitor st3) (at_exit w) of
                                   (m, x) \<Rightarrow> (m, Some x))
                           else (memoryMonitor st3, None));
                        st4 = st3\<lparr>memoryMonitor := mm'\<rparr>;
                        st5 = st4\<lparr>timeoutManager :=
                                  fst (stopExecution (timeoutManager st4) (executionId context)
                                         (date_now (at_exit w)))\<rparr>
                    in Returned st5
                         \<lparr>sr_result = tr_result r,
                          securityReport =
                            createSecurityReport st5 (executionId context) codeViolations start
                              finalMemoryMetrics (Some (tr_metrics r)) (at_exit w),
                          success = tr_success r,
                          sr_error = tr_error r\<rparr>)
                 else
                   (let st3 = st2\<lparr>timeoutManager :=
                                  foldl tm_event (timeoutManager st2) (timer_events w)\<rparr>
                    in case ur_settle executor of
                         NeverSettles \<Rightarrow> Pending
                       | Resolves t v \<Rightarrow>
                           (let (mm', finalMemoryMetrics) =
                                  (if enableMemoryMonitoring (config st3)
                                   then (case stopMonitoring (memoryMonitor st3) (at_exit w) of
                                           (m, x) \<Rightarrow> (m, Some x))
                                   else (memoryMonitor st3, None));
                                st4 = st3\<lparr>memoryMonitor := mm'\<rparr>
                            in Returned st4
                                 \<lparr>sr_result = Some v,
                                  securityReport =
                                    createSecurityReport st4 (executionId context) codeViolations
                                      start finalMemoryMetrics None (at_exit w),
                                  success = True,
                                  sr_error = None\<rparr>)
                       | Rejects t e \<Rightarrow>
                           (let st4 = emergencyCleanup st3 (executionId context) (at_exit w)
                            in Returned st4
                                 \<lparr>sr_result = None,
                                  securityReport =
                                    createSecurityReport st4 (executionId context) codeViolations
                                      start None None (at_exit w),
                                  success = False,
                                  sr_error =
                                    Some (error_message e (js ''Security execution failed''))\<rparr>))))"

text \<open>
  \<open>executeSecurely\<close>. \<open>sha256hex\<close> and \<open>formatBytes\<close> are the two functions the
  analyzer and the memory monitor are given; \<open>executor\<close> is what the callback does when
  it is called; \<open>w\<close> is what the surroundings decide.
\<close>

definition executeSecurely ::
  "(jsstring \<Rightarrow> jsstring) \<Rightarrow> (int \<Rightarrow> jsstring) \<Rightarrow> MainSecurityManager
     \<Rightarrow> SecureExecutionContext \<Rightarrow> 'a unit_run \<Rightarrow> world \<Rightarrow> 'a completion" where
  "executeSecurely sha256hex formatBytes st context executor w =
     (if \<not> initialized st then Thrown st (Error (js ''Security manager not initialized''))
      else
        (let start = date_now (at_entry w);
             (mb, codeAnalysis) = analyzeCode sha256hex start (moduleBlocker st) (code context);
             st1 = st\<lparr>moduleBlocker := mb\<rparr>
         in if \<not> an_safe codeAnalysis \<and> strictMode (config st1) then
              Returned st1
                \<lparr>sr_result = None,
                 securityReport =
                   createSecurityReport st1 (executionId context) (an_violations codeAnalysis)
                     start None None (at_entry w),
                 success = False,
                 sr_error =
                   Some (js ''Code failed security analysis - contains dangerous patterns'')\<rparr>
            else
              (case (if enableMemoryMonitoring (config st1)
                     then startMonitoring formatBytes (memoryMonitor st1) (at_entry w)
                     else (memoryMonitor st1, None)) of
                 (mm, Some e) \<Rightarrow> Thrown (st1\<lparr>memoryMonitor := mm\<rparr>) e
               | (mm, None) \<Rightarrow>
                   (let st2 = st1\<lparr>memoryMonitor := mm\<rparr>;
                        st3 = (if enableTimeoutManagement (config st2)
                               then st2\<lparr>timeoutManager :=
                                      fst (startExecution (timeoutManager st2)
                                             (executionId context) False start)\<rparr>
                               else st2)
                    in run_monitored formatBytes st3 context (an_violations codeAnalysis)
                         start executor w))))"

section \<open>Notions used in the statements\<close>

text \<open>
  \<open>matches r s\<close>: the pattern matches the whole of \<open>s\<close>. \<open>occurs r s\<close>: a search
  from the start of \<open>s\<close> finds the pattern.
\<close>

definition matches :: "re \<Rightarrow> jsstring \<Rightarrow> bool" where
  "matches r s = ([] \<in> set (rmatch r s))"

definition occurs :: "re \<Rightarrow> jsstring \<Rightarrow> bool" where
  "occurs r s = (find_from r s \<noteq> None)"

text \<open>
  What a scan of \<open>src\<close> reports when every pattern is searched from the start: one
  finding for each pattern that occurs, in the order of \<open>DANGEROUS_PATTERNS\<close>, then the
  size finding.
\<close>

definition static_findings :: "(jsstring \<Rightarrow> jsstring) \<Rightarrow> int \<Rightarrow> jsstring \<Rightarrow> SecurityViolation list" where
  "static_findings sha256hex now src =
     concat (map (\<lambda>(i, p). if occurs p src then [pattern_violation i now (sha256hex src)] else [])
               (zip [0..<length DANGEROUS_PATTERNS] DANGEROUS_PATTERNS))
     @ (if length src > 50000 then [size_violation now (sha256hex src)] else [])"

text \<open>
  A memory reading is within the limits when neither CRITICAL check of \<open>checkLimits\<close>
  fires on it; \<open>samples_within\<close> says so of every memory sample among the timer callbacks.
\<close>

definition within_limits :: "MemoryLimits \<Rightarrow> MemoryUsage \<Rightarrow> bool" where
  "within_limits l u = (mu_heapUsed u \<le> maxHeapSize l \<and> mu_rss u \<le> maxRssSize l)"

definition samples_within :: "MemoryLimits \<Rightarrow> timer_event list \<Rightarrow> bool" where
  "samples_within l evs =
     list_all (\<lambda>ev. case ev of MemorySample amb \<Rightarrow> within_limits l (memoryUsage amb) | _ \<Rightarrow> True) evs"

section \<open>Sample inputs\<close>

text \<open>
  Concrete inputs for the worked examples below. \<open>ready\<close> is an initialized manager
  whose two violation logs are empty and whose patterns all have \<open>lastIndex\<close> 0 (the
  logs are emptied by \<open>clearViolations\<close>; a scan that misses resets \<open>lastIndex\<close>).
\<close>

definition quiet :: ambient where
  "quiet =
     \<lparr>date_now = 1000,
      memoryUsage = \<lparr>mu_heapUsed = 1024, mu_heapTotal = 2048, mu_rss = 4096, mu_external = 0,
                      mu_arrayBuffers = 0\<rparr>,
      cpu_user = 0, cpu_system = 0\<rparr>"

definition calm :: world where
  "calm = \<lparr>at_entry = quiet, timer_events = [], at_exit = quiet\<lparr>date_now := 1005\<rparr>\<rparr>"

definition ready :: MainSecurityManager where
  "ready = (new_MainSecurityManager Map.empty 0)\<lparr>initialized := True\<rparr>"

definition request :: "string \<Rightarrow> string \<Rightarrow> SecureExecutionContext" where
  "request i c =
     \<lparr>executionId = js i, code = js c, language = js ''javascript'', timeout = None,
      memoryLimit = None\<rparr>"

definition finishes :: "nat unit_run" where
  "finishes = \<lparr>ur_settle = Resolves 5 4, ur_module_violations = [], ur_env_violations = []\<rparr>"




definition home_env :: EnvironmentBlocker where
  "home_env =
     \<lparr>env_violations = [],
      originalProcessEnv = [js ''NODE_ENV'' \<mapsto> js ''production'', js ''HOME'' \<mapsto> js ''/root'']\<rparr>"

text \<open>An executor whose promise never settles, and two calls made one after the other.\<close>

definition hangs :: "nat unit_run" where
  "hangs = \<lparr>ur_settle = NeverSettles, ur_module_violations = [], ur_env_violations = []\<rparr>"

definition first_run :: "nat completion" where
  "first_run = executeSecurely id number_text ready (request ''a'' ''eval(1)'') finishes calm"

definition second_run :: "nat completion" where
  "second_run =
     (case first_run of
        Returned s r \<Rightarrow> executeSecurely id number_text s (request ''b'' ''1 + 1'') finishes calm
      | c \<Rightarrow> c)"

text \<open>
  A timeout manager with the stock configuration, one finding of each severity the gates
  and the analyzer record, and lists of findings.
\<close>

definition stock_timeouts :: TimeoutManager where
  "stock_timeouts =
     new_TimeoutManager \<lparr>maxExecutionTime = 30000, maxCpuTime = 20000, checkInterval = 1000\<rparr>"

definition critical_finding :: SecurityViolation where
  "critical_finding = blocked_violation (js ''fs'') 0"

definition high_finding :: SecurityViolation where
  "high_finding = unlisted_violation (js ''left-pad'') 0"

definition medium_finding :: SecurityViolation where
  "medium_finding = size_violation 0 []"

definition three_findings :: "SecurityViolation list" where
  "three_findings = [critical_finding, high_finding, medium_finding]"

definition five_high :: "SecurityViolation list" where
  "five_high = [high_finding, high_finding, high_finding, high_finding, high_finding]"

definition three_high :: "SecurityViolation list" where
  "three_high = [high_finding, medium_finding, high_finding, high_finding]"

definition four_medium :: "SecurityViolation list" where
  "four_medium = [medium_finding, medium_finding, medium_finding, medium_finding]"

definition report_of :: "SecurityViolation list \<Rightarrow> SecurityReport" where
  "report_of cvs = createSecurityReport ready (js ''a'') cvs 0 None None quiet"

section \<open>Properties of the sample inputs\<close>

lemma ready_facts:
  "initialized ready" "strictMode (config ready)" "enableTimeoutManagement (config ready)"
  "violations (moduleBlocker ready) = []" "env_violations (environmentBlocker ready) = []"
  "lastIndex (moduleBlocker ready) i = 0" "executor_calls ready = 0"
  by (simp_all add: ready_def new_MainSecurityManager_def default_config_def
        new_ModuleSecurityManager_def)

lemma ready_memory:
  "within_limits (limits (memoryMonitor ready)) (memoryUsage (at_entry calm))"
  "samples_within (limits (memoryMonitor ready)) (timer_events calm)"
  by (simp_all add: ready_def new_MainSecurityManager_def default_config_def new_MemoryMonitor_def
        within_limits_def samples_within_def calm_def quiet_def)

lemma sample_facts:
  "moduleBlocker ready = new_ModuleSecurityManager"
  "date_now (at_entry calm) = 1000"
  "code (request i c) = js c"
  "executionId (request i c) = js i"
  by (simp_all add: ready_def new_MainSecurityManager_def calm_def quiet_def request_def)

lemma fresh_log: "violations new_ModuleSecurityManager = []"
  by (simp add: new_ModuleSecurityManager_def)

section \<open>Properties of the report\<close>

text \<open>The violations a report lists: the findings handed in, then the two shared logs.\<close>

lemma report_violations:
  "rp_violations (createSecurityReport st ident cvs start mm tmx amb) =
     map of_security_violation cvs
     @ map of_security_violation (violations (moduleBlocker st))
     @ map of_environment_violation (env_violations (environmentBlocker st))"
  by (simp add: createSecurityReport_def Let_def mb_getViolations_def env_getViolations_def)

text \<open>
  \<open>count_severity\<close>, the counter of \<open>createSecurityReport\<close>, gives the number of
  entries of a severity: the multiplicity of that severity among the severities listed.
\<close>

lemma count_severities:
  "count (image_mset rv_severity (mset vs)) l = length (filter (\<lambda>v. rv_severity v = l) vs)"
  by (induction vs) simp_all

lemma count_severity_entries:
  "count_severity l vs = int (count (image_mset rv_severity (mset vs)) l)"
  by (simp add: count_severity_def count_severities)

text \<open>The violations the sample reports list, and their severities.\<close>

lemma sample_reports:
  "rp_violations (report_of cvs) = map of_security_violation cvs"
  by (simp add: report_of_def report_violations ready_facts)

lemma sample_severities:
  "rv_severity (of_security_violation critical_finding) = CRITICAL"
  "rv_severity (of_security_violation high_finding) = HIGH"
  "rv_severity (of_security_violation medium_finding) = MEDIUM"
  by (simp_all add: of_security_violation_def critical_finding_def high_finding_def
        medium_finding_def blocked_violation_def unlisted_violation_def size_violation_def)

text \<open>Risk level and safe flag by the numbers of entries.\<close>

lemma risk_by_counts:
  "riskLevel (createSecurityReport st ident cvs start mm tmx amb) =
     (if count (image_mset rv_severity
                  (mset (rp_violations (createSecurityReport st ident cvs start mm tmx amb))))
               CRITICAL > 0
      then CRITICAL
      else if count (image_mset rv_severity
                  (mset (rp_violations (createSecurityReport st ident cvs start mm tmx amb))))
               HIGH > 2
      then HIGH
      else if count (image_mset rv_severity
                  (mset (rp_violations (createSecurityReport st ident cvs start mm tmx amb))))
               HIGH > 0
            \<or> count (image_mset rv_severity
                  (mset (rp_violations (createSecurityReport st ident cvs start mm tmx amb))))
               MEDIUM > 3
      then MEDIUM
      else LOW)
   \<and> rp_safe (createSecurityReport st ident cvs start mm tmx amb) =
       (count (image_mset rv_severity
                  (mset (rp_violations (createSecurityReport st ident cvs start mm tmx amb))))
               CRITICAL = 0
        \<and> count (image_mset rv_severity
                  (mset (rp_violations (createSecurityReport st ident cvs start mm tmx amb))))
               HIGH = 0)"
proof -
  let ?vs = "map of_security_violation cvs
             @ map of_security_violation (mb_getViolations (moduleBlocker st))
             @ map of_environment_violation (env_getViolations (environmentBlocker st))"
  define c where "c = count (image_mset rv_severity (mset ?vs)) CRITICAL"
  define h where "h = count (image_mset rv_severity (mset ?vs)) HIGH"
  define m where "m = count (image_mset rv_severity (mset ?vs)) MEDIUM"
  have v: "rp_violations (createSecurityReport st ident cvs start mm tmx amb) = ?vs"
    by (simp add: createSecurityReport_def Let_def)
  have cs: "count_severity CRITICAL ?vs = int c" "count_severity HIGH ?vs = int h"
    "count_severity MEDIUM ?vs = int m"
    unfolding c_def h_def m_def by (rule count_severity_entries)+
  have "riskLevel (createSecurityReport st ident cvs start mm tmx amb) =
          (if c > 0 then CRITICAL else if h > 2 then HIGH
           else if h > 0 \<or> m > 3 then MEDIUM else LOW)
        \<and> rp_safe (createSecurityReport st ident cvs start mm tmx amb) = (c = 0 \<and> h = 0)"
    by (simp add: createSecurityReport_def Let_def cs)
  then show ?thesis unfolding v c_def h_def m_def .
qed

text \<open>
  C4. With c, h and m the numbers of CRITICAL, HIGH and MEDIUM entries in the multiset of
  violations a report lists, the score of the report is max(0, 100 - 50 c - 20 h - 10 m).
\<close>

theorem securityScore_formula:
  "securityScore (createSecurityReport st ident cvs start mm tmx amb) =
     max 0 (100
            - 50 * int (count (image_mset rv_severity
                          (mset (rp_violations (createSecurityReport st ident cvs start mm tmx amb))))
                          CRITICAL)
            - 20 * int (count (image_mset rv_severity
                          (mset (rp_violations (createSecurityReport st ident cvs start mm tmx amb))))
                          HIGH)
            - 10 * int (count (image_mset rv_severity
                          (mset (rp_violations (createSecurityReport st ident cvs start mm tmx amb))))
                          MEDIUM))"
proof -
  let ?vs = "map of_security_violation cvs
             @ map of_security_violation (mb_getViolations (moduleBlocker st))
             @ map of_environment_violation (env_getViolations (environmentBlocker st))"
  have v: "rp_violations (createSecurityReport st ident cvs start mm tmx amb) = ?vs"
    by (simp add: createSecurityReport_def Let_def)
  have "securityScore (createSecurityReport st ident cvs start mm tmx amb) =
          max 0 (100 - count_severity CRITICAL ?vs * 50 - count_severity HIGH ?vs * 20
                 - count_severity MEDIUM ?vs * 10)"
    by (simp add: createSecurityReport_def Let_def)
  then show ?thesis
    unfolding v count_severity_entries by (simp add: mult.commute)
qed

text \<open>
  Scores of five reports: one CRITICAL, one HIGH and one MEDIUM entry score 20, three HIGH
  and one MEDIUM 30, four MEDIUM 60, five HIGH 0 and two entries of each severity 0.
\<close>

theorem securityScore_formula_witness:
  "securityScore (report_of three_findings) = 20
   \<and> securityScore (report_of three_high) = 30
   \<and> securityScore (report_of four_medium) = 60
   \<and> securityScore (report_of five_high) = 0
   \<and> securityScore (report_of (three_findings @ three_findings)) = 0"
  using securityScore_formula [of ready "js ''a''" three_findings 0 None None quiet]
    securityScore_formula [of ready "js ''a''" three_high 0 None None quiet]
    securityScore_formula [of ready "js ''a''" four_medium 0 None None quiet]
    securityScore_formula [of ready "js ''a''" five_high 0 None None quiet]
    securityScore_formula [of ready "js ''a''" "three_findings @ three_findings" 0 None None quiet]
  unfolding report_of_def [symmetric] sample_reports
  by (simp add: three_findings_def three_high_def four_medium_def five_high_def sample_severities)

text \<open>
  C5. With c, h and m the numbers of CRITICAL, HIGH and MEDIUM entries in the multiset of
  violations a report lists, the risk level of the report is CRITICAL when c > 0, else HIGH
  when h > 2, else MEDIUM when h > 0 or m > 3, else LOW, and the report is flagged safe
  exactly when c = 0 and h = 0; two reports listing the same multiset of violations have
  the same risk level and the same safe flag.
\<close>

theorem riskLevel_formula:
  fixes st st' :: MainSecurityManager and ident ident' :: jsstring
    and cvs cvs' :: "SecurityViolation list" and start start' :: int
    and mm mm' :: "MemoryMetrics option" and tmx tmx' :: "ExecutionMetrics option"
    and amb amb' :: ambient and r r' :: SecurityReport and c h m :: nat
  defines "r \<equiv> createSecurityReport st ident cvs start mm tmx amb"
    and "r' \<equiv> createSecurityReport st' ident' cvs' start' mm' tmx' amb'"
  defines "c \<equiv> count (image_mset rv_severity (mset (rp_violations r))) CRITICAL"
    and "h \<equiv> count (image_mset rv_severity (mset (rp_violations r))) HIGH"
    and "m \<equiv> count (image_mset rv_severity (mset (rp_violations r))) MEDIUM"
  shows "riskLevel r =
           (if c > 0 then CRITICAL
            else if h > 2 then HIGH
            else if h > 0 \<or> m > 3 then MEDIUM
            else LOW)
         \<and> rp_safe r = (c = 0 \<and> h = 0)
         \<and> (mset (rp_violations r) = mset (rp_violations r') \<longrightarrow>
              riskLevel r = riskLevel r' \<and> rp_safe r = rp_safe r')"
proof -
  have a: "riskLevel r =
           (if c > 0 then CRITICAL
            else if h > 2 then HIGH
            else if h > 0 \<or> m > 3 then MEDIUM
            else LOW)
         \<and> rp_safe r = (c = 0 \<and> h = 0)"
    unfolding r_def c_def h_def m_def by (rule risk_by_counts)
  have b: "mset (rp_violations r) = mset (rp_violations r') \<Longrightarrow>
             riskLevel r = riskLevel r' \<and> rp_safe r = rp_safe r'"
    using risk_by_counts [of st ident cvs start mm tmx amb]
      risk_by_counts [of st' ident' cvs' start' mm' tmx' amb']
    unfolding r_def r'_def by simp
  show ?thesis using a b by blast
qed

text \<open>
  Each branch of the risk level, on both sides of the bounds 2 and 3, and two reports
  listing the same violations in another order.
\<close>

theorem riskLevel_formula_witness:
  "riskLevel (report_of three_findings) = CRITICAL \<and> \<not> rp_safe (report_of three_findings)
   \<and> riskLevel (report_of five_high) = HIGH \<and> \<not> rp_safe (report_of five_high)
   \<and> riskLevel (report_of three_high) = HIGH
   \<and> riskLevel (report_of [high_finding, high_finding]) = MEDIUM
   \<and> \<not> rp_safe (report_of [high_finding, high_finding])
   \<and> riskLevel (report_of four_medium) = MEDIUM \<and> rp_safe (report_of four_medium)
   \<and> riskLevel (report_of [medium_finding, medium_finding, medium_finding]) = LOW
   \<and> mset (rp_violations (report_of three_high))
       = mset (rp_violations (report_of [medium_finding, high_finding, high_finding, high_finding]))
   \<and> riskLevel (report_of three_high)
       = riskLevel (report_of [medium_finding, high_finding, high_finding, high_finding])"
  using riskLevel_formula [of ready "js ''a''" three_findings 0 None None quiet]
    riskLevel_formula [of ready "js ''a''" five_high 0 None None quiet]
    riskLevel_formula [of ready "js ''a''" three_high 0 None None quiet
                          ready "js ''a''" "[medium_finding, high_finding, high_finding, high_finding]"
                          0 None None quiet]
    riskLevel_formula [of ready "js ''a''" "[high_finding, high_finding]" 0 None None quiet]
    riskLevel_formula [of ready "js ''a''" "[medium_finding, high_finding, high_finding, high_finding]"
                          0 None None quiet]
    riskLevel_formula [of ready "js ''a''" four_medium 0 None None quiet]
    riskLevel_formula [of ready "js ''a''" "[medium_finding, medium_finding, medium_finding]"
                          0 None None quiet]
  unfolding report_of_def [symmetric] sample_reports
  by (simp add: three_findings_def three_high_def four_medium_def five_high_def sample_severities)

section \<open>Properties of the environment gate\<close>

text \<open>No variable name is on both lists.\<close>

lemma allowed_vars_all: "list_all (\<lambda>x. x \<notin> set SENSITIVE_VARS) ALLOWED_VARS"
  by (simp add: ALLOWED_VARS_def SENSITIVE_VARS_def js_def)

lemma allowed_var_not_sensitive: "x \<in> set ALLOWED_VARS \<Longrightarrow> x \<notin> set SENSITIVE_VARS"
  using allowed_vars_all by (simp add: list_all_iff)

text \<open>
  C8. A read of a variable name through the gated view of \<open>process.env\<close>, where a name
  counts as allow-listed or as sensitive when its upper-case form is in the list, as the
  proxy tests it: an allow-listed name yields the value the original environment holds for
  that name and records nothing; a sensitive name throws and appends one CRITICAL violation
  to the log; every other name yields \<open>undefined\<close> and appends one HIGH violation.
\<close>

theorem env_get_contract:
  "(toUpperCase name \<in> set ALLOWED_VARS \<longrightarrow>
      env_get toUpperCase now b (Str name) = (b, Inr (originalProcessEnv b name)))
   \<and> (toUpperCase name \<in> set SENSITIVE_VARS \<longrightarrow>
        (\<exists>v msg. env_get toUpperCase now b (Str name)
                    = (b\<lparr>env_violations := env_violations b @ [v]\<rparr>, Inl (Error msg))
                 \<and> ev_severity v = CRITICAL \<and> ev_variable v = Some name))
   \<and> (toUpperCase name \<notin> set ALLOWED_VARS \<and> toUpperCase name \<notin> set SENSITIVE_VARS \<longrightarrow>
        (\<exists>v. env_get toUpperCase now b (Str name)
                = (b\<lparr>env_violations := env_violations b @ [v]\<rparr>, Inr None)
             \<and> ev_severity v = HIGH \<and> ev_variable v = Some name))"
  using allowed_var_not_sensitive [of "toUpperCase name"]
  by (auto simp: env_get_def)

text \<open>Four reads under ASCII upper-casing: \<open>Node_Env\<close>, \<open>NODE_ENV\<close>, \<open>home\<close>, \<open>EDITOR\<close>.\<close>

theorem env_get_contract_witness:
  "map canonicalize (js ''Node_Env'') \<in> set ALLOWED_VARS
   \<and> env_get (map canonicalize) 7 home_env (Str (js ''Node_Env'')) = (home_env, Inr None)
   \<and> map canonicalize (js ''NODE_ENV'') \<in> set ALLOWED_VARS
   \<and> env_get (map canonicalize) 7 home_env (Str (js ''NODE_ENV''))
       = (home_env, Inr (Some (js ''production'')))
   \<and> map canonicalize (js ''home'') \<in> set SENSITIVE_VARS
   \<and> (\<exists>v msg. env_get (map canonicalize) 7 home_env (Str (js ''home''))
                 = (home_env\<lparr>env_violations := env_violations home_env @ [v]\<rparr>, Inl (Error msg))
               \<and> ev_severity v = CRITICAL \<and> ev_variable v = Some (js ''home''))
   \<and> map canonicalize (js ''EDITOR'') \<notin> set ALLOWED_VARS
   \<and> map canonicalize (js ''EDITOR'') \<notin> set SENSITIVE_VARS
   \<and> (\<exists>v. env_get (map canonicalize) 7 home_env (Str (js ''EDITOR''))
             = (home_env\<lparr>env_violations := env_violations home_env @ [v]\<rparr>, Inr None)
           \<and> ev_severity v = HIGH \<and> ev_variable v = Some (js ''EDITOR''))"
proof -
  have a1: "map canonicalize (js ''Node_Env'') \<in> set ALLOWED_VARS"
    by (simp add: ALLOWED_VARS_def js_def canonicalize_def)
  have a2: "map canonicalize (js ''NODE_ENV'') \<in> set ALLOWED_VARS"
    by (simp add: ALLOWED_VARS_def js_def canonicalize_def)
  have s1: "map canonicalize (js ''home'') \<in> set SENSITIVE_VARS"
    by (simp add: SENSITIVE_VARS_def js_def canonicalize_def)
  have n1: "map canonicalize (js ''EDITOR'') \<notin> set ALLOWED_VARS"
    by (simp add: ALLOWED_VARS_def js_def canonicalize_def)
  have n2: "map canonicalize (js ''EDITOR'') \<notin> set SENSITIVE_VARS"
    by (simp add: SENSITIVE_VARS_def js_def canonicalize_def)
  have v1: "originalProcessEnv home_env (js ''Node_Env'') = None"
    by (simp add: home_env_def js_def)
  have v2: "originalProcessEnv home_env (js ''NODE_ENV'') = Some (js ''production'')"
    by (simp add: home_env_def js_def)
  show ?thesis
    using a1 a2 s1 n1 n2 v1 v2
      env_get_contract [of "map canonicalize" "js ''Node_Env''" 7 home_env]
      env_get_contract [of "map canonicalize" "js ''NODE_ENV''" 7 home_env]
      env_get_contract [of "map canonicalize" "js ''home''" 7 home_env]
      env_get_contract [of "map canonicalize" "js ''EDITOR''" 7 home_env]
    by simp
qed

text \<open>The copying loop adds no key outside the list it runs over.\<close>

lemma foldl_copy_dom:
  "dom (foldl (\<lambda>env varName. case orig varName of None \<Rightarrow> env | Some v \<Rightarrow> env(varName \<mapsto> v)) e0 xs)
     \<subseteq> dom e0 \<union> set xs"
proof (induction xs arbitrary: e0)
  case Nil
  show ?case by simp
next
  case (Cons a xs)
  let ?f = "\<lambda>env varName. case orig varName of None \<Rightarrow> env | Some v \<Rightarrow> env(varName \<mapsto> v)"
  have "dom (foldl ?f (?f e0 a) xs) \<subseteq> dom (?f e0 a) \<union> set xs"
    by (rule Cons)
  moreover have "dom (?f e0 a) \<subseteq> insert a (dom e0)"
    by (cases "orig a") auto
  ultimately have "dom (foldl ?f (?f e0 a) xs) \<subseteq> dom e0 \<union> insert a (set xs)"
    by blast
  then show ?case by simp
qed

text \<open>
  C9, as the code has it. Every key of the map \<open>createSafeEnvironment\<close> returns is an
  allow-listed name or the added default \<open>SANDBOX\<close>; \<open>SANDBOX\<close> is always present
  with the value \<open>true\<close>, and \<open>NODE_ENV\<close> with the value \<open>sandbox\<close>.
\<close>

theorem createSafeEnvironment_keys:
  "(k \<in> dom (createSafeEnvironment b) \<longrightarrow> k \<in> set ALLOWED_VARS \<or> k = js ''SANDBOX'')
   \<and> createSafeEnvironment b (js ''SANDBOX'') = Some (js ''true'')
   \<and> createSafeEnvironment b (js ''NODE_ENV'') = Some (js ''sandbox'')"
proof -
  have "js ''NODE_ENV'' \<in> set ALLOWED_VARS" by (simp add: ALLOWED_VARS_def js_def)
  moreover have "js ''NODE_ENV'' \<noteq> js ''SANDBOX''" by (simp add: js_def)
  ultimately show ?thesis
    using foldl_copy_dom [of "originalProcessEnv b" Map.empty ALLOWED_VARS]
    by (auto simp: createSafeEnvironment_def Let_def)
qed

text \<open>The key \<open>NODE_ENV\<close> of the safe environment built over \<open>home_env\<close>.\<close>

theorem createSafeEnvironment_keys_witness:
  "js ''NODE_ENV'' \<in> dom (createSafeEnvironment home_env)
   \<and> (js ''NODE_ENV'' \<in> set ALLOWED_VARS \<or> js ''NODE_ENV'' = js ''SANDBOX'')
   \<and> createSafeEnvironment home_env (js ''SANDBOX'') = Some (js ''true'')
   \<and> createSafeEnvironment home_env (js ''NODE_ENV'') = Some (js ''sandbox'')"
  using createSafeEnvironment_keys [of "js ''NODE_ENV''" home_env]
  by (auto simp: dom_def)

text \<open>
  The claim of C9 that every key is allow-listed fails: over an empty environment the
  returned map has the key \<open>SANDBOX\<close>, which is not on the allow list.
\<close>

theorem createSafeEnvironment_counterexample:
  "js ''SANDBOX'' \<in> dom (createSafeEnvironment \<lparr>env_violations = [], originalProcessEnv = Map.empty\<rparr>)
   \<and> js ''SANDBOX'' \<notin> set ALLOWED_VARS"
  by (simp add: createSafeEnvironment_def ALLOWED_VARS_def js_def)

section \<open>Properties of the module gate\<close>

text \<open>No module name is on both lists.\<close>

lemma allowed_modules_all: "list_all (\<lambda>x. x \<notin> set BLOCKED_MODULES) ALLOWED_MODULES"
  by (simp add: ALLOWED_MODULES_def BLOCKED_MODULES_def js_def)

lemma allowed_module_not_blocked: "x \<in> set ALLOWED_MODULES \<Longrightarrow> x \<notin> set BLOCKED_MODULES"
  using allowed_modules_all by (simp add: list_all_iff)


text \<open>
  Where the wrapped loader is this module's own \<open>require\<close>, a call for an allow-listed
  name calls \<open>secureRequire\<close> again with the same name until no stack is left: it throws
  the \<open>RangeError\<close>, whatever room the stack had, and records nothing.
\<close>

lemma secureRequire_own_require:
  "ident \<in> set ALLOWED_MODULES \<Longrightarrow>
   secureRequire room OwnRequire now m ident = (m, Inl stack_overflow)"
proof (induction room)
  case 0
  show ?case by simp
next
  case (Suc room)
  then show ?case using allowed_module_not_blocked [of ident] by simp
qed




section \<open>Properties of the timeout manager\<close>

text \<open>No operation of the timeout manager but \<open>executeWithTimeout\<close> writes the configuration.\<close>

lemma startExecution_config: "tm_config (fst (startExecution tm i wk now)) = tm_config tm"
  by (simp add: startExecution_def Let_def)

lemma stopExecution_config: "tm_config (fst (stopExecution tm i now)) = tm_config tm"
  by (simp add: stopExecution_def Let_def split: option.splits)

lemma terminateExecution_config: "tm_config (fst (terminateExecution tm i why now)) = tm_config tm"
  by (simp add: terminateExecution_def Let_def split: option.splits)

lemma checkResourceUsage_config: "tm_config (checkResourceUsage tm i amb) = tm_config tm"
  by (simp add: checkResourceUsage_def Let_def terminateExecution_config split: option.splits)

lemma tm_event_config: "tm_config (tm_event tm ev) = tm_config tm"
  by (cases ev) (simp_all add: terminateExecution_config checkResourceUsage_config)

lemma foldl_tm_event_config: "tm_config (foldl tm_event tm evs) = tm_config tm"
  by (induction evs arbitrary: tm) (simp_all add: tm_event_config)

text \<open>
  C10. After \<open>executeWithTimeout\<close>, with or without a custom timeout, however the
  executor's promise settles and whichever timer callbacks ran meanwhile, the configured
  \<open>maxExecutionTime\<close> is what it was before the call.
\<close>

theorem executeWithTimeout_restores_config:
  "maxExecutionTime (tm_config (fst (executeWithTimeout tm i ex custom t0 evs t1)))
     = maxExecutionTime (tm_config tm)"
  apply (cases custom)
  apply (auto simp: executeWithTimeout_def Let_def split_def startExecution_config stopExecution_config foldl_tm_event_config split: sum.splits option.splits)
  done

text \<open>
  A promise that resolves after 2000 ms under a custom timeout of 1000 ms, and under the
  configured 30000 ms.
\<close>

theorem executeWithTimeout_restores_config_witness:
  "tr_success (snd (executeWithTimeout stock_timeouts (js ''a'') (Resolves 2000 (7::nat))
                      (Some 1000) 0 [] 1000)) = False
   \<and> tr_error (snd (executeWithTimeout stock_timeouts (js ''a'') (Resolves 2000 (7::nat))
                       (Some 1000) 0 [] 1000)) = Some (js ''Execution timeout'')
   \<and> tr_success (snd (executeWithTimeout stock_timeouts (js ''a'') (Resolves 2000 (7::nat))
                         None 0 [] 2000)) = True
   \<and> maxExecutionTime (tm_config (fst (executeWithTimeout stock_timeouts (js ''a'')
                                          (Resolves 2000 (7::nat)) (Some 1000) 0 [] 1000))) = 30000"
proof -
  have "maxExecutionTime (tm_config stock_timeouts) = 30000"
    by (simp add: stock_timeouts_def new_TimeoutManager_def)
  then show ?thesis
    using executeWithTimeout_restores_config
            [of stock_timeouts "js ''a''" "Resolves 2000 (7::nat)" "Some 1000" 0 "[]" 1000]
    by (simp add: executeWithTimeout_def Let_def split_def stock_timeouts_def new_TimeoutManager_def
          startExecution_def stopExecution_def race_def timer_delay_def truthy_def
          error_message_def)
qed

section \<open>Properties of the pattern matcher\<close>

text \<open>
  A match is kept when text is appended after it, and the text a match consumed is matched
  as a whole; so a search finds a pattern exactly when some substring matches it.
\<close>

lemma star_self: "s \<in> set (rmatch (Star k) s)"
  by (cases s) simp_all

lemma rmatch_extend: "t \<in> set (rmatch r s) \<Longrightarrow> t @ u \<in> set (rmatch r (s @ u))"
proof (induction r s arbitrary: t rule: rmatch.induct)
  case (6 k)
  then show ?case by (simp add: star_self)
next
  case (7 k x xs)
  then show ?case by (auto split: if_splits)
next
  case (9 a b s)
  then obtain t1 where t1: "t1 \<in> set (rmatch a s)" and t: "t \<in> set (rmatch b t1)"
    by auto
  have "t1 @ u \<in> set (rmatch a (s @ u))" using "9.IH"(1) t1 by blast
  moreover have "t @ u \<in> set (rmatch b (t1 @ u))" using "9.IH"(2) t1 t by blast
  ultimately show ?case by auto
qed (auto split: if_splits)

lemma rmatch_consumed:
  "t \<in> set (rmatch r s) \<Longrightarrow> \<exists>m. s = m @ t \<and> [] \<in> set (rmatch r m)"
proof (induction r s arbitrary: t rule: rmatch.induct)
  case (7 k x xs)
  show ?case
  proof (cases "in_class k x \<and> t \<in> set (rmatch (Star k) xs)")
    case True
    then obtain m where m: "xs = m @ t" "[] \<in> set (rmatch (Star k) m)"
      using "7.IH" by blast
    then have "x # xs = (x # m) @ t \<and> [] \<in> set (rmatch (Star k) (x # m))"
      using True by simp
    then show ?thesis by blast
  next
    case False
    then have "t = x # xs" using "7.prems" by (auto split: if_splits)
    then have "x # xs = [] @ t \<and> [] \<in> set (rmatch (Star k) [])" by simp
    then show ?thesis by blast
  qed
next
  case (9 a b s)
  then obtain t1 where t1: "t1 \<in> set (rmatch a s)" and t: "t \<in> set (rmatch b t1)"
    by auto
  obtain m1 where m1: "s = m1 @ t1" "[] \<in> set (rmatch a m1)"
    using "9.IH"(1) t1 by blast
  obtain m2 where m2: "t1 = m2 @ t" "[] \<in> set (rmatch b m2)"
    using "9.IH"(2) t1 t by blast
  have "m2 \<in> set (rmatch a (m1 @ m2))"
    using rmatch_extend [OF m1(2), of m2] by simp
  then have "[] \<in> set (rmatch (Seq a b) (m1 @ m2))"
    using m2(2) by auto
  then show ?case using m1(1) m2(1) by (metis append.assoc)
next
  case (8 a b s)
  then show ?case by auto
qed (auto split: if_splits)

lemma find_from_hit: "rmatch r s \<noteq> [] \<Longrightarrow> find_from r s \<noteq> None"
  by (cases s) (auto split: list.splits)

lemma find_from_skip: "find_from r s \<noteq> None \<Longrightarrow> find_from r (x # s) \<noteq> None"
  by (auto split: list.splits)

lemma occurs_substring: "matches r m \<Longrightarrow> occurs r (pre @ m @ post)"
proof (induction pre)
  case Nil
  have "post \<in> set (rmatch r (m @ post))"
    using rmatch_extend [of "[]" r m post] Nil by (simp add: matches_def)
  then have "rmatch r (m @ post) \<noteq> []" by auto
  then show ?case by (simp add: occurs_def find_from_hit)
next
  case (Cons x pre)
  then show ?case by (simp add: occurs_def find_from_skip del: find_from.simps)
qed

lemma find_from_sound:
  "find_from r s = Some t \<Longrightarrow> \<exists>pre m. s = pre @ m @ t \<and> matches r m"
proof (induction s)
  case Nil
  then have "t \<in> set (rmatch r [])" by (auto split: list.splits)
  then obtain m where "[] = m @ t" "[] \<in> set (rmatch r m)"
    using rmatch_consumed by blast
  then have "[] = [] @ m @ t \<and> matches r m" by (simp add: matches_def)
  then show ?case by blast
next
  case (Cons x s)
  show ?case
  proof (cases "rmatch r (x # s)")
    case Nil
    then have "find_from r s = Some t" using Cons.prems by simp
    then obtain pre m where "s = pre @ m @ t" "matches r m" using Cons.IH by blast
    then have "x # s = (x # pre) @ m @ t \<and> matches r m" by simp
    then show ?thesis by blast
  next
    case (Cons t' ts)
    then have "t \<in> set (rmatch r (x # s))" using Cons.prems by simp
    then obtain m where "x # s = m @ t" "[] \<in> set (rmatch r m)"
      using rmatch_consumed by blast
    then have "x # s = [] @ m @ t \<and> matches r m" by (simp add: matches_def)
    then show ?thesis by blast
  qed
qed

text \<open>So \<open>occurs\<close> says that some substring is matched by the pattern.\<close>

lemma occurs_iff: "occurs r s \<longleftrightarrow> (\<exists>pre m post. s = pre @ m @ post \<and> matches r m)"
  using occurs_substring find_from_sound
  by (metis occurs_def not_Some_eq)

lemma regexp_test_fresh: "fst (regexp_test r s 0) = occurs r s"
  by (simp add: regexp_test_def occurs_def split: option.splits)

lemma regexp_test_miss: "\<not> fst (regexp_test r s li) \<Longrightarrow> snd (regexp_test r s li) = 0"
  by (simp add: regexp_test_def split: option.splits if_splits)

section \<open>Properties of the static analyzer\<close>

lemma scan_patterns_fresh:
  "distinct (map fst ps) \<Longrightarrow> (\<forall>i \<in> fst ` set ps. li i = 0) \<Longrightarrow>
   fst (scan_patterns ps src now h li)
     = concat (map (\<lambda>(i, p). if occurs p src then [pattern_violation i now h] else []) ps)"
proof (induction ps arbitrary: li)
  case Nil
  show ?case by simp
next
  case (Cons a ps)
  obtain i p where a: "a = (i, p)" by (cases a)
  let ?l = "snd (regexp_test p src (li i))"
  have li: "li i = 0" using Cons.prems(2) a by simp
  have d: "distinct (map fst ps)" and ni: "i \<notin> fst ` set ps"
    using Cons.prems(1) a by auto
  have "\<forall>j \<in> fst ` set ps. (li(i := ?l)) j = 0"
    using Cons.prems(2) ni by auto
  then have ih: "fst (scan_patterns ps src now h (li(i := ?l)))
     = concat (map (\<lambda>(i, p). if occurs p src then [pattern_violation i now h] else []) ps)"
    using Cons.IH [OF d] by blast
  have hit: "fst (regexp_test p src (li i)) = occurs p src"
    using li regexp_test_fresh by simp
  show ?case
    using ih hit by (simp add: a split_def Let_def)
qed

lemma scan_patterns_clean:
  "(\<forall>(i, p) \<in> set ps. li i = 0 \<and> \<not> occurs p src) \<Longrightarrow>
   snd (scan_patterns ps src now h li) = li"
proof (induction ps arbitrary: li)
  case Nil
  show ?case by simp
next
  case (Cons a ps)
  obtain i p where a: "a = (i, p)" by (cases a)
  have li: "li i = 0" and no: "\<not> occurs p src" using Cons.prems a by auto
  have miss: "\<not> fst (regexp_test p src (li i))"
    using li no regexp_test_fresh by simp
  then have z: "snd (regexp_test p src (li i)) = 0" by (rule regexp_test_miss)
  then have same: "li(i := snd (regexp_test p src (li i))) = li"
    using li by (simp add: fun_upd_idem)
  have "\<forall>(i, p) \<in> set ps. li i = 0 \<and> \<not> occurs p src" using Cons.prems by simp
  then have "snd (scan_patterns ps src now h li) = li" by (rule Cons.IH)
  then show ?case using same by (simp add: a split_def Let_def)
qed

lemma analyzeCode_log:
  "violations (fst (analyzeCode H now m src))
     = violations m @ an_violations (snd (analyzeCode H now m src))"
  by (simp add: analyzeCode_def Let_def split_def)

lemma zip_upt_fst: "fst ` set (zip [0..<length xs] xs) = {0..<length xs}"
proof -
  have "map fst (zip [0..<length xs] xs) = [0..<length xs]" by simp
  then have "set (map fst (zip [0..<length xs] xs)) = set [0..<length xs]" by (rule arg_cong)
  then show ?thesis by (simp only: set_map set_upt)
qed

lemma zip_upt_snd: "snd ` set (zip [0..<length xs] xs) = set xs"
proof -
  have "map snd (zip [0..<length xs] xs) = xs" by simp
  then have "set (map snd (zip [0..<length xs] xs)) = set xs" by (rule arg_cong)
  then show ?thesis by (simp only: set_map)
qed

lemma analyzeCode_findings:
  assumes "\<forall>i < length DANGEROUS_PATTERNS. lastIndex m i = 0"
  shows "an_violations (snd (analyzeCode H now m src)) = static_findings H now src"
proof -
  let ?ps = "zip [0..<length DANGEROUS_PATTERNS] DANGEROUS_PATTERNS"
  have d: "distinct (map fst ?ps)" by simp
  have "fst ` set ?ps = {0..<length DANGEROUS_PATTERNS}" by (rule zip_upt_fst)
  then have z: "\<forall>i \<in> fst ` set ?ps. lastIndex m i = 0" using assms by simp
  show ?thesis
    using scan_patterns_fresh [OF d z, of src now "H src"]
    by (simp add: analyzeCode_def static_findings_def Let_def split_def)
qed

lemma static_findings_safe:
  "(filter (\<lambda>v. sv_severity v = CRITICAL \<or> sv_severity v = HIGH) (static_findings H now src) = [])
     = (\<forall>p \<in> set DANGEROUS_PATTERNS. \<not> occurs p src)"
proof -
  let ?ps = "zip [0..<length DANGEROUS_PATTERNS] DANGEROUS_PATTERNS"
  have "(filter (\<lambda>v. sv_severity v = CRITICAL \<or> sv_severity v = HIGH) (static_findings H now src) = [])
          = (\<forall>x \<in> set ?ps. \<not> occurs (snd x) src)"
    by (auto simp: static_findings_def filter_empty_conv pattern_violation_def
          size_violation_def split_def)
  also have "\<dots> = (\<forall>p \<in> snd ` set ?ps. \<not> occurs p src)" by auto
  also have "\<dots> = (\<forall>p \<in> set DANGEROUS_PATTERNS. \<not> occurs p src)"
    by (simp only: zip_upt_snd)
  finally show ?thesis .
qed

lemma analyzeCode_safe:
  assumes "\<forall>i < length DANGEROUS_PATTERNS. lastIndex m i = 0"
  shows "an_safe (snd (analyzeCode H now m src)) = (\<forall>p \<in> set DANGEROUS_PATTERNS. \<not> occurs p src)"
proof -
  have "an_safe (snd (analyzeCode H now m src))
          = (filter (\<lambda>v. sv_severity v = CRITICAL \<or> sv_severity v = HIGH)
               (an_violations (snd (analyzeCode H now m src))) = [])"
    by (simp add: analyzeCode_def Let_def split_def)
  then show ?thesis
    using analyzeCode_findings [OF assms] static_findings_safe by simp
qed

lemma analyzeCode_clean_lastIndex:
  assumes "\<forall>i < length DANGEROUS_PATTERNS. lastIndex m i = 0"
    and "\<forall>p \<in> set DANGEROUS_PATTERNS. \<not> occurs p src"
  shows "lastIndex (fst (analyzeCode H now m src)) = lastIndex m"
proof -
  let ?ps = "zip [0..<length DANGEROUS_PATTERNS] DANGEROUS_PATTERNS"
  have "\<forall>(i, p) \<in> set ?ps. lastIndex m i = 0 \<and> \<not> occurs p src"
    using assms by (auto simp: set_zip)
  then have "snd (scan_patterns ?ps src now (H src) (lastIndex m)) = lastIndex m"
    by (rule scan_patterns_clean)
  then show ?thesis by (simp add: analyzeCode_def Let_def split_def)
qed

text \<open>
  C6, as the code has it. Every call of \<open>analyzeCode\<close> appends the findings it returns
  to the analyzer's violation log. Called while every pattern's \<open>lastIndex\<close> is 0, it
  returns one HIGH finding for each pattern that occurs in the source, in pattern order,
  then the MEDIUM size finding for a source of more than 50000 code units, and \<open>safe\<close>
  is true exactly when no pattern occurs; and when no pattern occurs, a second call with
  the same source and clock returns the same result.
\<close>

theorem analyzeCode_fresh:
  "violations (fst (analyzeCode H now m src))
     = violations m @ an_violations (snd (analyzeCode H now m src))
   \<and> ((\<forall>i < length DANGEROUS_PATTERNS. lastIndex m i = 0) \<longrightarrow>
        an_violations (snd (analyzeCode H now m src)) = static_findings H now src
        \<and> an_safe (snd (analyzeCode H now m src))
            = (\<forall>p \<in> set DANGEROUS_PATTERNS. \<not> occurs p src)
        \<and> ((\<forall>p \<in> set DANGEROUS_PATTERNS. \<not> occurs p src) \<longrightarrow>
             snd (analyzeCode H now (fst (analyzeCode H now m src)) src)
               = snd (analyzeCode H now m src)))"
proof -
  {
    assume fresh: "\<forall>i < length DANGEROUS_PATTERNS. lastIndex m i = 0"
    have f: "an_violations (snd (analyzeCode H now m src)) = static_findings H now src"
      using fresh by (rule analyzeCode_findings)
    have s: "an_safe (snd (analyzeCode H now m src))
               = (\<forall>p \<in> set DANGEROUS_PATTERNS. \<not> occurs p src)"
      using fresh by (rule analyzeCode_safe)
    {
      assume clean: "\<forall>p \<in> set DANGEROUS_PATTERNS. \<not> occurs p src"
      have "lastIndex (fst (analyzeCode H now m src)) = lastIndex m"
        using fresh clean by (rule analyzeCode_clean_lastIndex)
      then have fresh': "\<forall>i < length DANGEROUS_PATTERNS. lastIndex (fst (analyzeCode H now m src)) i = 0"
        using fresh by simp
      have "an_violations (snd (analyzeCode H now (fst (analyzeCode H now m src)) src))
              = an_violations (snd (analyzeCode H now m src))"
        using analyzeCode_findings [OF fresh'] f by simp
      moreover have "an_safe (snd (analyzeCode H now (fst (analyzeCode H now m src)) src))
              = an_safe (snd (analyzeCode H now m src))"
        using analyzeCode_safe [OF fresh'] s by simp
      ultimately have "snd (analyzeCode H now (fst (analyzeCode H now m src)) src)
               = snd (analyzeCode H now m src)"
        by simp
    }
    note again = this
    have "an_violations (snd (analyzeCode H now m src)) = static_findings H now src
        \<and> an_safe (snd (analyzeCode H now m src))
            = (\<forall>p \<in> set DANGEROUS_PATTERNS. \<not> occurs p src)
        \<and> ((\<forall>p \<in> set DANGEROUS_PATTERNS. \<not> occurs p src) \<longrightarrow>
             snd (analyzeCode H now (fst (analyzeCode H now m src)) src)
               = snd (analyzeCode H now m src))"
      using f s again by blast
  }
  then show ?thesis using analyzeCode_log by blast
qed

text \<open>The definitions a concrete scan unfolds.\<close>

lemmas rx = DANGEROUS_PATTERNS_def require_of_def lit_def regexp_test_def js_def
  canonicalize_def is_white_space_def is_line_terminator_def

text \<open>A fresh analyzer on a source with \<open>require('fs')\<close> in it, and twice on \<open>1 + 1\<close>.\<close>

theorem analyzeCode_fresh_witness:
  "an_violations (snd (analyzeCode id 0 new_ModuleSecurityManager (js ''x = require('fs')'')))
     = static_findings id 0 (js ''x = require('fs')'')
   \<and> an_safe (snd (analyzeCode id 0 new_ModuleSecurityManager (js ''x = require('fs')''))) = False
   \<and> snd (analyzeCode id 0 (fst (analyzeCode id 0 new_ModuleSecurityManager (js ''1 + 1'')))
             (js ''1 + 1''))
       = snd (analyzeCode id 0 new_ModuleSecurityManager (js ''1 + 1''))"
proof -
  have fresh: "\<forall>i < length DANGEROUS_PATTERNS. lastIndex new_ModuleSecurityManager i = 0"
    by (simp add: new_ModuleSecurityManager_def)
  have hit: "\<not> (\<forall>p \<in> set DANGEROUS_PATTERNS. \<not> occurs p (js ''x = require('fs')''))"
    by (simp add: occurs_def rx)
  have clean: "\<forall>p \<in> set DANGEROUS_PATTERNS. \<not> occurs p (js ''1 + 1'')"
    by (simp add: occurs_def rx)
  show ?thesis
    using fresh hit clean
      analyzeCode_fresh [of id 0 new_ModuleSecurityManager "js ''x = require('fs')''"]
      analyzeCode_fresh [of id 0 new_ModuleSecurityManager "js ''1 + 1''"]
    by simp
qed

text \<open>
  After a hit on \<open>require('fs')\<close> the pattern's \<open>lastIndex\<close> is the end of the
  match.
\<close>

lemma first_scan_lastIndex:
  "lastIndex (fst (analyzeCode id 0 new_ModuleSecurityManager (js ''require('fs')''))) 1 = 13"
  by (simp add: rx analyzeCode_def Let_def split_def new_ModuleSecurityManager_def upt_rec)

text \<open>
  The claim of C6 fails on a fresh analyzer and the source \<open>require('fs')\<close>: the first
  call reports the source unsafe, the second call with the same source reports it safe
  (the hit left the pattern's \<open>lastIndex\<close> at 13), and the first call has changed the
  violation log.
\<close>

theorem analyzeCode_counterexample:
  "an_safe (snd (analyzeCode id 0 new_ModuleSecurityManager (js ''require('fs')''))) = False
   \<and> an_safe (snd (analyzeCode id 0
                     (fst (analyzeCode id 0 new_ModuleSecurityManager (js ''require('fs')'')))
                     (js ''require('fs')''))) = True
   \<and> violations (fst (analyzeCode id 0 new_ModuleSecurityManager (js ''require('fs')'')))
       \<noteq> violations new_ModuleSecurityManager"
  by (simp add: rx analyzeCode_def Let_def split_def new_ModuleSecurityManager_def upt_rec
        pattern_violation_def)

section \<open>Properties of the memory monitor\<close>

text \<open>
  No check changes the limits, and a reading within the limits makes no check throw.
\<close>

lemma checkLimits_frame:
  "checkLimits F mm metrics = (mm', e) \<Longrightarrow> limits mm' = limits mm"
  by (auto simp: checkLimits_def Let_def split: if_splits)

lemma checkLimits_quiet:
  "heapUsed metrics \<le> maxHeapSize (limits mm) \<Longrightarrow> rss metrics \<le> maxRssSize (limits mm) \<Longrightarrow>
   snd (checkLimits F mm metrics) = None"
  by (simp add: checkLimits_def Let_def handleViolation_def)

lemma checkMemoryGrowthAnomalies_limits:
  "limits (checkMemoryGrowthAnomalies F mm metrics) = limits mm"
  by (simp add: checkMemoryGrowthAnomalies_def Let_def)

lemma record_sample_limits: "limits (record_sample mm metrics) = limits mm"
  by (simp add: record_sample_def Let_def)

lemma checkMemoryUsage_limits: "limits (fst (checkMemoryUsage F mm amb)) = limits mm"
  by (auto simp: checkMemoryUsage_def Let_def checkMemoryGrowthAnomalies_limits
        record_sample_limits split: prod.splits option.splits dest: checkLimits_frame)

lemma checkMemoryUsage_quiet:
  assumes "within_limits (limits mm) (memoryUsage amb)"
  shows "snd (checkMemoryUsage F mm amb) = None"
proof -
  let ?m = "sample_metrics mm amb"
  have "heapUsed ?m \<le> maxHeapSize (limits (record_sample mm ?m))"
    and "rss ?m \<le> maxRssSize (limits (record_sample mm ?m))"
    using assms by (simp_all add: within_limits_def sample_metrics_def record_sample_limits Let_def)
  then have q: "snd (checkLimits F (record_sample mm ?m) ?m) = None"
    by (rule checkLimits_quiet)
  obtain mm3 e where c: "checkLimits F (record_sample mm ?m) ?m = (mm3, e)"
    by (cases "checkLimits F (record_sample mm ?m) ?m")
  then have "e = None" using q by simp
  then show ?thesis
    using c by (simp add: checkMemoryUsage_def Let_def)
qed

lemma startMonitoring_limits: "limits (fst (startMonitoring F mm amb)) = limits mm"
  by (simp add: startMonitoring_def checkMemoryUsage_limits)

lemma startMonitoring_quiet:
  "within_limits (limits mm) (memoryUsage amb) \<Longrightarrow> snd (startMonitoring F mm amb) = None"
  by (simp add: startMonitoring_def checkMemoryUsage_quiet)

lemma memory_samples_quiet:
  "samples_within (limits mm) evs \<Longrightarrow> snd (memory_samples F mm evs) = None"
proof (induction F mm evs rule: memory_samples.induct)
  case (1 f mm)
  show ?case by simp
next
  case (2 f mm amb evs)
  have w: "within_limits (limits mm) (memoryUsage amb)"
    and rest: "samples_within (limits mm) evs"
    using "2.prems" by (simp_all add: samples_within_def)
  show ?case
  proof (cases "monitoringInterval mm")
    case False
    then show ?thesis using "2.IH"(2) rest by simp
  next
    case True
    obtain mm' e where c: "checkMemoryUsage f mm amb = (mm', e)"
      by (cases "checkMemoryUsage f mm amb")
    have e: "e = None" using checkMemoryUsage_quiet [OF w, of f] c by simp
    have l: "limits mm' = limits mm" using checkMemoryUsage_limits [of f mm amb] c by simp
    have "snd (memory_samples f mm' evs) = None"
      using "2.IH"(1) [OF True c [symmetric] e] rest l by simp
    then show ?thesis using True c e by simp
  qed
qed (simp_all add: samples_within_def)

section \<open>Properties of the coordinator\<close>

lemma report_id: "rp_executionId (createSecurityReport st ident cvs start mm tmx amb) = ident"
  by (simp add: createSecurityReport_def Let_def)

lemma invoke_executor_monitor: "memoryMonitor (invoke_executor st ex) = memoryMonitor st"
  by (simp add: invoke_executor_def)

lemma run_monitored_returns:
  assumes "samples_within (limits (memoryMonitor st)) (timer_events w)"
    and "enableTimeoutManagement (config st) \<or> ur_settle ex \<noteq> NeverSettles"
  shows "\<exists>st' r. run_monitored F st ctx cvs start ex w = Returned st' r"
proof -
  obtain mm e where m: "memory_samples F (memoryMonitor (invoke_executor st ex)) (timer_events w) = (mm, e)"
    by (cases "memory_samples F (memoryMonitor (invoke_executor st ex)) (timer_events w)")
  have "snd (memory_samples F (memoryMonitor (invoke_executor st ex)) (timer_events w)) = None"
    using assms(1) by (simp add: memory_samples_quiet invoke_executor_monitor)
  then have e: "e = None" using m by simp
  have c: "config (invoke_executor st ex) = config st" by (simp add: invoke_executor_def)
  show ?thesis
  proof (cases "enableTimeoutManagement (config st)")
    case True
    then show ?thesis
      using m e c by (simp add: run_monitored_def Let_def split_def)
  next
    case False
    then have "ur_settle ex \<noteq> NeverSettles" using assms(2) by simp
    then show ?thesis
      using m e c False
      by (cases "ur_settle ex") (simp_all add: run_monitored_def Let_def split_def)
  qed
qed

lemma run_monitored_log:
  assumes "run_monitored F st ctx cvs start ex w = Returned st' r"
  shows "rp_violations (securityReport r) =
           map of_security_violation cvs
           @ map of_security_violation (violations (moduleBlocker st'))
           @ map of_environment_violation (env_violations (environmentBlocker st'))"
    and "violations (moduleBlocker st') = violations (moduleBlocker st) @ ur_module_violations ex"
    and "env_violations (environmentBlocker st')
           = env_violations (environmentBlocker st) @ ur_env_violations ex"
    and "executor_calls st' = Suc (executor_calls st)"
    and "config st' = config st"
    and "initialized st' = initialized st"
    and "rp_executionId (securityReport r) = executionId ctx"
proof -
  obtain mm e where m: "memory_samples F (memoryMonitor (invoke_executor st ex)) (timer_events w) = (mm, e)"
    by (cases "memory_samples F (memoryMonitor (invoke_executor st ex)) (timer_events w)")
  have e: "e = None"
    using assms m by (cases e) (simp_all add: run_monitored_def Let_def)
  have all: "rp_violations (securityReport r) =
           map of_security_violation cvs
           @ map of_security_violation (violations (moduleBlocker st'))
           @ map of_environment_violation (env_violations (environmentBlocker st'))
    \<and> violations (moduleBlocker st') = violations (moduleBlocker st) @ ur_module_violations ex
    \<and> env_violations (environmentBlocker st')
           = env_violations (environmentBlocker st) @ ur_env_violations ex
    \<and> executor_calls st' = Suc (executor_calls st)
    \<and> config st' = config st
    \<and> initialized st' = initialized st
    \<and> rp_executionId (securityReport r) = executionId ctx"
  proof (cases "enableTimeoutManagement (config st)")
    case True
    then show ?thesis
      using assms m e
      by (auto simp: run_monitored_def Let_def split_def invoke_executor_def report_violations report_id)
  next
    case False
    then show ?thesis
      using assms m e
      by (cases "ur_settle ex")
         (auto simp: run_monitored_def Let_def split_def invoke_executor_def report_violations
            report_id emergencyCleanup_def)
  qed
  show "rp_violations (securityReport r) =
           map of_security_violation cvs
           @ map of_security_violation (violations (moduleBlocker st'))
           @ map of_environment_violation (env_violations (environmentBlocker st'))"
    and "violations (moduleBlocker st') = violations (moduleBlocker st) @ ur_module_violations ex"
    and "env_violations (environmentBlocker st')
           = env_violations (environmentBlocker st) @ ur_env_violations ex"
    and "executor_calls st' = Suc (executor_calls st)"
    and "config st' = config st"
    and "initialized st' = initialized st"
    and "rp_executionId (securityReport r) = executionId ctx"
    using all by simp_all
qed

lemma executeSecurely_uninitialized:
  "\<not> initialized st \<Longrightarrow>
   executeSecurely H F st ctx ex w = Thrown st (Error (js ''Security manager not initialized''))"
  by (simp add: executeSecurely_def)

lemma executeSecurely_rejects:
  assumes "initialized st" and "strictMode (config st)"
    and "\<not> an_safe (snd (analyzeCode H (date_now (at_entry w)) (moduleBlocker st) (code ctx)))"
  shows "executeSecurely H F st ctx ex w =
           Returned (st\<lparr>moduleBlocker :=
                         fst (analyzeCode H (date_now (at_entry w)) (moduleBlocker st) (code ctx))\<rparr>)
             \<lparr>sr_result = None,
              securityReport =
                createSecurityReport
                  (st\<lparr>moduleBlocker :=
                        fst (analyzeCode H (date_now (at_entry w)) (moduleBlocker st) (code ctx))\<rparr>)
                  (executionId ctx)
                  (an_violations
                     (snd (analyzeCode H (date_now (at_entry w)) (moduleBlocker st) (code ctx))))
                  (date_now (at_entry w)) None None (at_entry w),
              success = False,
              sr_error = Some (js ''Code failed security analysis - contains dangerous patterns'')\<rparr>"
  using assms by (simp add: executeSecurely_def Let_def split_def)

lemma executeSecurely_returns:
  assumes "initialized st"
    and "within_limits (limits (memoryMonitor st)) (memoryUsage (at_entry w))"
    and "samples_within (limits (memoryMonitor st)) (timer_events w)"
    and "enableTimeoutManagement (config st) \<or> ur_settle ex \<noteq> NeverSettles"
  shows "\<exists>st' r. executeSecurely H F st ctx ex w = Returned st' r"
proof -
  let ?a = "analyzeCode H (date_now (at_entry w)) (moduleBlocker st) (code ctx)"
  let ?st1 = "st\<lparr>moduleBlocker := fst ?a\<rparr>"
  show ?thesis
  proof (cases "\<not> an_safe (snd ?a) \<and> strictMode (config st)")
    case True
    then show ?thesis using assms(1) by (simp add: executeSecurely_def Let_def split_def)
  next
    case False
    let ?s = "if enableMemoryMonitoring (config ?st1)
              then startMonitoring F (memoryMonitor ?st1) (at_entry w)
              else (memoryMonitor ?st1, None)"
    obtain mm e where s: "?s = (mm, e)" by (cases ?s)
    have e: "e = None"
      using s assms(2) startMonitoring_quiet [of "memoryMonitor st" "at_entry w" F]
      by (auto split: if_splits)
    have l: "limits mm = limits (memoryMonitor st)"
      using s startMonitoring_limits [of F "memoryMonitor st" "at_entry w"]
      by (auto split: if_splits)
    let ?st2 = "?st1\<lparr>memoryMonitor := mm\<rparr>"
    let ?st3 = "if enableTimeoutManagement (config ?st2)
                then ?st2\<lparr>timeoutManager :=
                       fst (startExecution (timeoutManager ?st2) (executionId ctx) False
                              (date_now (at_entry w)))\<rparr>
                else ?st2"
    have "samples_within (limits (memoryMonitor ?st3)) (timer_events w)"
      using assms(3) l by simp
    moreover have "enableTimeoutManagement (config ?st3) \<or> ur_settle ex \<noteq> NeverSettles"
      using assms(4) by auto
    ultimately have "\<exists>st' r. run_monitored F ?st3 ctx (an_violations (snd ?a))
                        (date_now (at_entry w)) ex w = Returned st' r"
      by (rule run_monitored_returns)
    then show ?thesis
      using False assms(1) s e
      by (auto simp: executeSecurely_def Let_def split_def split: if_splits)
  qed
qed

lemma executeSecurely_log:
  assumes "executeSecurely H F st ctx ex w = Returned st' r"
  shows "\<exists>more more'.
           rp_violations (securityReport r) =
             map of_security_violation
               (an_violations (snd (analyzeCode H (date_now (at_entry w)) (moduleBlocker st) (code ctx))))
             @ map of_security_violation (violations (moduleBlocker st'))
             @ map of_environment_violation (env_violations (environmentBlocker st'))
         \<and> violations (moduleBlocker st') =
             violations (moduleBlocker st)
             @ an_violations (snd (analyzeCode H (date_now (at_entry w)) (moduleBlocker st) (code ctx)))
             @ more
         \<and> env_violations (environmentBlocker st') = env_violations (environmentBlocker st) @ more'
         \<and> rp_executionId (securityReport r) = executionId ctx"
proof -
  let ?a = "analyzeCode H (date_now (at_entry w)) (moduleBlocker st) (code ctx)"
  let ?st1 = "st\<lparr>moduleBlocker := fst ?a\<rparr>"
  have i: "initialized st"
    using assms by (cases "initialized st") (simp_all add: executeSecurely_def)
  have lg: "violations (fst ?a) = violations (moduleBlocker st) @ an_violations (snd ?a)"
    by (rule analyzeCode_log)
  show ?thesis
  proof (cases "\<not> an_safe (snd ?a) \<and> strictMode (config st)")
    case True
    then have "st' = ?st1"
      and "securityReport r = createSecurityReport ?st1 (executionId ctx) (an_violations (snd ?a))
             (date_now (at_entry w)) None None (at_entry w)"
      using assms i by (auto simp: executeSecurely_def Let_def split_def)
    then have "rp_violations (securityReport r) =
             map of_security_violation (an_violations (snd ?a))
             @ map of_security_violation (violations (moduleBlocker st'))
             @ map of_environment_violation (env_violations (environmentBlocker st'))
         \<and> violations (moduleBlocker st') = violations (moduleBlocker st) @ an_violations (snd ?a) @ []
         \<and> env_violations (environmentBlocker st') = env_violations (environmentBlocker st) @ []
         \<and> rp_executionId (securityReport r) = executionId ctx"
      using lg by (simp add: report_violations report_id)
    then show ?thesis by blast
  next
    case False
    let ?s = "if enableMemoryMonitoring (config ?st1)
              then startMonitoring F (memoryMonitor ?st1) (at_entry w)
              else (memoryMonitor ?st1, None)"
    obtain mm e where s: "?s = (mm, e)" by (cases ?s)
    have e: "e = None"
      using assms i False s by (cases e) (simp_all add: executeSecurely_def Let_def split_def)
    let ?st2 = "?st1\<lparr>memoryMonitor := mm\<rparr>"
    let ?st3 = "if enableTimeoutManagement (config ?st2)
                then ?st2\<lparr>timeoutManager :=
                       fst (startExecution (timeoutManager ?st2) (executionId ctx) False
                              (date_now (at_entry w)))\<rparr>
                else ?st2"
    have rm: "run_monitored F ?st3 ctx (an_violations (snd ?a)) (date_now (at_entry w)) ex w
                = Returned st' r"
      using assms i False s e
      by (auto simp: executeSecurely_def Let_def split_def split: if_splits)
    have "rp_violations (securityReport r) =
             map of_security_violation (an_violations (snd ?a))
             @ map of_security_violation (violations (moduleBlocker st'))
             @ map of_environment_violation (env_violations (environmentBlocker st'))
         \<and> violations (moduleBlocker st') =
             violations (moduleBlocker st) @ an_violations (snd ?a) @ ur_module_violations ex
         \<and> env_violations (environmentBlocker st') =
             env_violations (environmentBlocker st) @ ur_env_violations ex
         \<and> rp_executionId (securityReport r) = executionId ctx"
      using run_monitored_log(1,2,3,7) [OF rm] lg by simp
    then show ?thesis by blast
  qed
qed

text \<open>
  C1, as the code has it. On a manager that is not initialized \<open>executeSecurely\<close>
  throws \<open>Security manager not initialized\<close>. On an initialized manager it returns a
  structured result for every context and executor, provided every memory reading taken
  during the call (the one at the start and the periodic samples) is within the heap and
  RSS limits, and timeout management is enabled or the executor's promise settles.
\<close>

theorem executeSecurely_outcome:
  "(\<not> initialized st \<longrightarrow>
      executeSecurely H F st ctx ex w
        = Thrown st (Error (js ''Security manager not initialized'')))
   \<and> (initialized st
        \<and> within_limits (limits (memoryMonitor st)) (memoryUsage (at_entry w))
        \<and> samples_within (limits (memoryMonitor st)) (timer_events w)
        \<and> (enableTimeoutManagement (config st) \<or> ur_settle ex \<noteq> NeverSettles) \<longrightarrow>
        (\<exists>st' r. executeSecurely H F st ctx ex w = Returned st' r))"
  using executeSecurely_uninitialized [of st H F ctx ex w]
    executeSecurely_returns [of st w ex H F ctx]
  by blast

text \<open>
  A request whose executor never settles, on the initialized manager and on the manager as
  constructed.
\<close>

theorem executeSecurely_outcome_witness:
  "initialized ready
   \<and> within_limits (limits (memoryMonitor ready)) (memoryUsage (at_entry calm))
   \<and> samples_within (limits (memoryMonitor ready)) (timer_events calm)
   \<and> enableTimeoutManagement (config ready)
   \<and> (\<exists>st' r. executeSecurely id number_text ready (request ''a'' ''while(true){}'') hangs calm
                 = Returned st' r)
   \<and> \<not> initialized (new_MainSecurityManager Map.empty 0)
   \<and> executeSecurely id number_text (new_MainSecurityManager Map.empty 0)
         (request ''a'' ''while(true){}'') hangs calm
       = Thrown (new_MainSecurityManager Map.empty 0)
           (Error (js ''Security manager not initialized''))"
proof -
  have n: "\<not> initialized (new_MainSecurityManager Map.empty 0)"
    by (simp add: new_MainSecurityManager_def)
  show ?thesis
    using n ready_facts(1,3) ready_memory
      executeSecurely_outcome [of ready id number_text "request ''a'' ''while(true){}''" hangs calm]
      executeSecurely_outcome [of "new_MainSecurityManager Map.empty 0" id number_text
        "request ''a'' ''while(true){}''" hangs calm]
    by simp
qed

text \<open>
  The claim of C1 fails on the manager as its constructor leaves it: the call throws.
\<close>

theorem executeSecurely_counterexample:
  "executeSecurely id number_text (new_MainSecurityManager Map.empty 0)
     (request ''a'' ''1 + 1'') finishes calm
   = Thrown (new_MainSecurityManager Map.empty 0)
       (Error (js ''Security manager not initialized''))"
  by (simp add: executeSecurely_def new_MainSecurityManager_def)

lemma scan_patterns_hit:
  "(i, p) \<in> set ps \<Longrightarrow> distinct (map fst ps) \<Longrightarrow> li i = 0 \<Longrightarrow> occurs p src \<Longrightarrow>
   pattern_violation i now h \<in> set (fst (scan_patterns ps src now h li))"
proof (induction ps arbitrary: li)
  case Nil
  then show ?case by simp
next
  case (Cons a ps)
  obtain j q where a: "a = (j, q)" by (cases a)
  show ?case
  proof (cases "j = i")
    case True
    then have "q = p" using Cons.prems(1,2) a by (force simp: image_iff)
    then have "fst (regexp_test q src (li j)) = True"
      using True Cons.prems(3,4) regexp_test_fresh by simp
    then show ?thesis using True by (simp add: a split_def Let_def)
  next
    case False
    then have "(i, p) \<in> set ps" using Cons.prems(1) a by auto
    moreover have "distinct (map fst ps)" using Cons.prems(2) by simp
    moreover have "(li(j := snd (regexp_test q src (li j)))) i = 0"
      using False Cons.prems(3) by simp
    ultimately have "pattern_violation i now h
        \<in> set (fst (scan_patterns ps src now h (li(j := snd (regexp_test q src (li j))))))"
      using Cons.IH Cons.prems(4) by blast
    then show ?thesis by (simp add: a split_def Let_def)
  qed
qed

lemma analyzeCode_hit:
  assumes "i < length DANGEROUS_PATTERNS" and "lastIndex m i = 0"
    and "occurs (DANGEROUS_PATTERNS ! i) src"
  shows "pattern_violation i now (H src) \<in> set (an_violations (snd (analyzeCode H now m src)))"
    and "\<not> an_safe (snd (analyzeCode H now m src))"
proof -
  let ?ps = "zip [0..<length DANGEROUS_PATTERNS] DANGEROUS_PATTERNS"
  have "(i, DANGEROUS_PATTERNS ! i) \<in> set ?ps"
    using assms(1) by (force simp: set_zip)
  moreover have "distinct (map fst ?ps)" by simp
  ultimately have "pattern_violation i now (H src)
      \<in> set (fst (scan_patterns ?ps src now (H src) (lastIndex m)))"
    using assms(2,3) by (rule scan_patterns_hit)
  then show v: "pattern_violation i now (H src) \<in> set (an_violations (snd (analyzeCode H now m src)))"
    by (simp add: analyzeCode_def Let_def split_def)
  have "sv_severity (pattern_violation i now (H src)) = HIGH"
    by (simp add: pattern_violation_def)
  then have "filter (\<lambda>v. sv_severity v = CRITICAL \<or> sv_severity v = HIGH)
               (an_violations (snd (analyzeCode H now m src))) \<noteq> []"
    using v by (auto simp: filter_empty_conv)
  then show "\<not> an_safe (snd (analyzeCode H now m src))"
    by (simp add: analyzeCode_def Let_def split_def)
qed

lemma count_severity_member:
  "v \<in> set vs \<Longrightarrow> rv_severity v = l \<Longrightarrow> 0 < count_severity l vs"
  by (auto simp: count_severity_def filter_empty_conv)

lemma report_unsafe:
  assumes "v \<in> set (rp_violations (createSecurityReport st ident cvs start mm tmx amb))"
    and "rv_severity v = HIGH"
  shows "\<not> rp_safe (createSecurityReport st ident cvs start mm tmx amb)"
proof -
  have "0 < count_severity HIGH (rp_violations (createSecurityReport st ident cvs start mm tmx amb))"
    using assms by (rule count_severity_member)
  then show ?thesis
    by (simp add: createSecurityReport_def Let_def)
qed

text \<open>
  C2, as the code has it. In strict mode, on an initialized manager, a source that
  contains a substring matched by a pattern of \<open>DANGEROUS_PATTERNS\<close> whose
  \<open>lastIndex\<close> is 0 is rejected: the call returns \<open>success = false\<close> with no
  result, the report lists a \<open>DANGEROUS_PATTERN\<close> violation of severity HIGH and is
  flagged unsafe, and the executor is not called.
\<close>

theorem strict_rejection:
  assumes "initialized st" and "strictMode (config st)"
    and "i < length DANGEROUS_PATTERNS" and "lastIndex (moduleBlocker st) i = 0"
    and "code ctx = pre @ m @ post" and "matches (DANGEROUS_PATTERNS ! i) m"
  shows "\<exists>st' r v. executeSecurely H F st ctx ex w = Returned st' r
           \<and> \<not> success r \<and> sr_result r = None
           \<and> executor_calls st' = executor_calls st
           \<and> v \<in> set (rp_violations (securityReport r))
           \<and> rv_type v = DANGEROUS_PATTERN \<and> rv_severity v = HIGH
           \<and> \<not> rp_safe (securityReport r)"
proof -
  let ?a = "analyzeCode H (date_now (at_entry w)) (moduleBlocker st) (code ctx)"
  let ?st1 = "st\<lparr>moduleBlocker := fst ?a\<rparr>"
  let ?rep = "createSecurityReport ?st1 (executionId ctx) (an_violations (snd ?a))
                (date_now (at_entry w)) None None (at_entry w)"
  let ?r = "\<lparr>sr_result = None, securityReport = ?rep, success = False,
             sr_error = Some (js ''Code failed security analysis - contains dangerous patterns'')\<rparr>"
  let ?pv = "pattern_violation i (date_now (at_entry w)) (H (code ctx))"
  have oc: "occurs (DANGEROUS_PATTERNS ! i) (code ctx)"
    using assms(5,6) by (simp add: occurs_substring)
  have hit: "?pv \<in> set (an_violations (snd ?a))" and unsafe: "\<not> an_safe (snd ?a)"
    using analyzeCode_hit [OF assms(3,4) oc] by simp_all
  have ret: "executeSecurely H F st ctx ex w = Returned ?st1 ?r"
    using assms(1,2) unsafe by (rule executeSecurely_rejects)
  have mem: "of_security_violation ?pv \<in> set (rp_violations ?rep)"
    using hit by (simp add: report_violations)
  have ty: "rv_type (of_security_violation ?pv) = DANGEROUS_PATTERN"
    and sev: "rv_severity (of_security_violation ?pv) = HIGH"
    by (simp_all add: of_security_violation_def pattern_violation_def)
  have us: "\<not> rp_safe ?rep" using mem sev by (rule report_unsafe)
  have "executeSecurely H F st ctx ex w = Returned ?st1 ?r
           \<and> \<not> success ?r \<and> sr_result ?r = None
           \<and> executor_calls ?st1 = executor_calls st
           \<and> of_security_violation ?pv \<in> set (rp_violations (securityReport ?r))
           \<and> rv_type (of_security_violation ?pv) = DANGEROUS_PATTERN
           \<and> rv_severity (of_security_violation ?pv) = HIGH
           \<and> \<not> rp_safe (securityReport ?r)"
    using ret mem ty sev us by simp
  then show ?thesis by blast
qed

lemma fs_pattern: "DANGEROUS_PATTERNS ! 1 = require_of ''fs''"
  by (simp add: DANGEROUS_PATTERNS_def)

lemma fs_match: "matches (require_of ''fs'') (js ''require('fs')'')"
  by (simp add: matches_def rx)

text \<open>The source \<open>const f = require('fs');\<close> on the initialized manager.\<close>

theorem strict_rejection_witness:
  "initialized ready \<and> strictMode (config ready)
   \<and> (1::nat) < length DANGEROUS_PATTERNS \<and> lastIndex (moduleBlocker ready) 1 = 0
   \<and> code (request ''a'' ''const f = require('fs');'')
       = js ''const f = '' @ js ''require('fs')'' @ js '';''
   \<and> matches (DANGEROUS_PATTERNS ! 1) (js ''require('fs')'')
   \<and> (\<exists>st' r v. executeSecurely id number_text ready
                     (request ''a'' ''const f = require('fs');'') finishes calm = Returned st' r
           \<and> \<not> success r \<and> sr_result r = None
           \<and> executor_calls st' = executor_calls ready
           \<and> v \<in> set (rp_violations (securityReport r))
           \<and> rv_type v = DANGEROUS_PATTERN \<and> rv_severity v = HIGH
           \<and> \<not> rp_safe (securityReport r))"
proof -
  have l: "(1::nat) < length DANGEROUS_PATTERNS" by (simp add: DANGEROUS_PATTERNS_def)
  have c: "code (request ''a'' ''const f = require('fs');'')
             = js ''const f = '' @ js ''require('fs')'' @ js '';''"
    by (simp add: request_def js_def)
  have m: "matches (DANGEROUS_PATTERNS ! 1) (js ''require('fs')'')"
    unfolding fs_pattern by (rule fs_match)
  show ?thesis
    using l c m ready_facts(1,2) ready_facts(6) [of 1]
      strict_rejection [OF ready_facts(1,2) l ready_facts(6) [of 1] c m, of id number_text finishes calm]
    by simp
qed

lemma fs_scan:
  "snd (analyzeCode id 1000 new_ModuleSecurityManager (js ''require('fs')''))
     = \<lparr>an_safe = False, an_violations = [pattern_violation 1 1000 (js ''require('fs')'')]\<rparr>"
  by (simp add: rx analyzeCode_def Let_def split_def new_ModuleSecurityManager_def upt_rec
        pattern_violation_def)

text \<open>
  The claim of C2 asks for a CRITICAL violation. On the initialized manager with empty
  logs, the report for \<open>require('fs')\<close> lists the finding twice (from the analysis and
  from the shared log), both times with severity HIGH, and nothing else.
\<close>

theorem strict_rejection_counterexample:
  "(case executeSecurely id number_text ready (request ''a'' ''require('fs')'') finishes calm of
      Returned st' r \<Rightarrow>
        map rv_severity (rp_violations (securityReport r)) = [HIGH, HIGH] \<and> \<not> success r
    | _ \<Rightarrow> False)"
proof -
  let ?a = "analyzeCode id 1000 new_ModuleSecurityManager (js ''require('fs')'')"
  have u: "\<not> an_safe (snd (analyzeCode id (date_now (at_entry calm)) (moduleBlocker ready)
                              (code (request ''a'' ''require('fs')''))))"
    by (simp add: sample_facts fs_scan)
  have lg: "violations (fst ?a) = [pattern_violation 1 1000 (js ''require('fs')'')]"
    using analyzeCode_log [of id 1000 new_ModuleSecurityManager "js ''require('fs')''"]
    by (simp add: fs_scan fresh_log)
  show ?thesis
    using lg
    by (simp add: executeSecurely_rejects [OF ready_facts(1,2) u] report_violations sample_facts
          fs_scan ready_facts of_security_violation_def pattern_violation_def)
qed

text \<open>
  C3, as the code has it. When two calls of \<open>executeSecurely\<close> are made one after the
  other on the same manager, whatever their ids, every violation listed in the report of
  the first is listed in the report of the second: the reports are built from the two
  shared logs, which \<open>executeSecurely\<close> only extends.
\<close>

theorem shared_logs:
  assumes "executeSecurely H F s0 c1 e1 w1 = Returned s1 r1"
    and "executeSecurely H F s1 c2 e2 w2 = Returned s2 r2"
  shows "set (rp_violations (securityReport r1)) \<subseteq> set (rp_violations (securityReport r2))"
proof -
  let ?cv1 = "an_violations (snd (analyzeCode H (date_now (at_entry w1)) (moduleBlocker s0) (code c1)))"
  let ?cv2 = "an_violations (snd (analyzeCode H (date_now (at_entry w2)) (moduleBlocker s1) (code c2)))"
  obtain m1 n1 where
    r1: "rp_violations (securityReport r1) =
           map of_security_violation ?cv1
           @ map of_security_violation (violations (moduleBlocker s1))
           @ map of_environment_violation (env_violations (environmentBlocker s1))"
    and l1: "violations (moduleBlocker s1) = violations (moduleBlocker s0) @ ?cv1 @ m1"
    using executeSecurely_log [OF assms(1)] by blast
  obtain m2 n2 where
    r2: "rp_violations (securityReport r2) =
           map of_security_violation ?cv2
           @ map of_security_violation (violations (moduleBlocker s2))
           @ map of_environment_violation (env_violations (environmentBlocker s2))"
    and l2: "violations (moduleBlocker s2) = violations (moduleBlocker s1) @ ?cv2 @ m2"
    and e2: "env_violations (environmentBlocker s2) = env_violations (environmentBlocker s1) @ n2"
    using executeSecurely_log [OF assms(2)] by blast
  have "set ?cv1 \<subseteq> set (violations (moduleBlocker s1))" using l1 by auto
  moreover have "set (violations (moduleBlocker s1)) \<subseteq> set (violations (moduleBlocker s2))"
    using l2 by auto
  moreover have "set (env_violations (environmentBlocker s1))
                   \<subseteq> set (env_violations (environmentBlocker s2))"
    using e2 by auto
  ultimately show ?thesis
    unfolding r1 r2 by auto
qed

lemma eval_pattern: "DANGEROUS_PATTERNS ! 6 = Seq (lit ''eval'') (Seq (Star WhiteSpace) (lit ''(''))"
  by (simp add: DANGEROUS_PATTERNS_def)

lemma eval_match: "matches (Seq (lit ''eval'') (Seq (Star WhiteSpace) (lit ''(''))) (js ''eval('')"
  by (simp add: matches_def rx)

lemma first_run_returned:
  "first_run =
     Returned (ready\<lparr>moduleBlocker := fst (analyzeCode id 1000 new_ModuleSecurityManager (js ''eval(1)''))\<rparr>)
       \<lparr>sr_result = None,
        securityReport =
          createSecurityReport
            (ready\<lparr>moduleBlocker := fst (analyzeCode id 1000 new_ModuleSecurityManager (js ''eval(1)''))\<rparr>)
            (js ''a'') (an_violations (snd (analyzeCode id 1000 new_ModuleSecurityManager (js ''eval(1)''))))
            1000 None None (at_entry calm),
        success = False,
        sr_error = Some (js ''Code failed security analysis - contains dangerous patterns'')\<rparr>"
  and first_run_logged:
  "pattern_violation 6 1000 (js ''eval(1)'')
     \<in> set (an_violations (snd (analyzeCode id 1000 new_ModuleSecurityManager (js ''eval(1)''))))"
proof -
  have l: "(6::nat) < length DANGEROUS_PATTERNS" by (simp add: DANGEROUS_PATTERNS_def)
  have z: "lastIndex new_ModuleSecurityManager 6 = 0" by (simp add: new_ModuleSecurityManager_def)
  have "matches (DANGEROUS_PATTERNS ! 6) (js ''eval('')"
    unfolding eval_pattern by (rule eval_match)
  then have "occurs (DANGEROUS_PATTERNS ! 6) ([] @ js ''eval('' @ js ''1)'')"
    by (rule occurs_substring)
  then have oc: "occurs (DANGEROUS_PATTERNS ! 6) (js ''eval(1)'')" by (simp add: js_def)
  show v: "pattern_violation 6 1000 (js ''eval(1)'')
     \<in> set (an_violations (snd (analyzeCode id 1000 new_ModuleSecurityManager (js ''eval(1)''))))"
    using analyzeCode_hit(1) [OF l z oc, of 1000 id] by simp
  have "\<not> an_safe (snd (analyzeCode id 1000 new_ModuleSecurityManager (js ''eval(1)'')))"
    using analyzeCode_hit(2) [OF l z oc, of id 1000] by simp
  then have u: "\<not> an_safe (snd (analyzeCode id (date_now (at_entry calm)) (moduleBlocker ready)
                              (code (request ''a'' ''eval(1)''))))"
    by (simp add: sample_facts)
  show "first_run =
     Returned (ready\<lparr>moduleBlocker := fst (analyzeCode id 1000 new_ModuleSecurityManager (js ''eval(1)''))\<rparr>)
       \<lparr>sr_result = None,
        securityReport =
          createSecurityReport
            (ready\<lparr>moduleBlocker := fst (analyzeCode id 1000 new_ModuleSecurityManager (js ''eval(1)''))\<rparr>)
            (js ''a'') (an_violations (snd (analyzeCode id 1000 new_ModuleSecurityManager (js ''eval(1)''))))
            1000 None None (at_entry calm),
        success = False,
        sr_error = Some (js ''Code failed security analysis - contains dangerous patterns'')\<rparr>"
    unfolding first_run_def
    by (simp add: executeSecurely_rejects [OF ready_facts(1,2) u] sample_facts)
qed

lemma second_run_returned:
  "\<exists>s2 r2. executeSecurely id number_text
              (ready\<lparr>moduleBlocker := fst (analyzeCode id 1000 new_ModuleSecurityManager (js ''eval(1)''))\<rparr>)
              (request ''b'' ''1 + 1'') finishes calm = Returned s2 r2"
  using ready_facts(1,3) ready_memory
  by (intro executeSecurely_returns) simp_all

text \<open>A rejected request \<open>a\<close> followed by a harmless request \<open>b\<close>.\<close>

theorem shared_logs_witness:
  "\<exists>s1 r1 s2 r2.
     executeSecurely id number_text ready (request ''a'' ''eval(1)'') finishes calm = Returned s1 r1
     \<and> executeSecurely id number_text s1 (request ''b'' ''1 + 1'') finishes calm = Returned s2 r2
     \<and> rp_violations (securityReport r1) \<noteq> []
     \<and> set (rp_violations (securityReport r1)) \<subseteq> set (rp_violations (securityReport r2))"
proof -
  let ?s1 = "ready\<lparr>moduleBlocker := fst (analyzeCode id 1000 new_ModuleSecurityManager (js ''eval(1)''))\<rparr>"
  let ?r1 = "\<lparr>sr_result = (None :: nat option),
        securityReport =
          createSecurityReport ?s1 (js ''a'')
            (an_violations (snd (analyzeCode id 1000 new_ModuleSecurityManager (js ''eval(1)''))))
            1000 None None (at_entry calm),
        success = False,
        sr_error = Some (js ''Code failed security analysis - contains dangerous patterns'')\<rparr>"
  have h1: "executeSecurely id number_text ready (request ''a'' ''eval(1)'') finishes calm
              = Returned ?s1 ?r1"
    using first_run_returned unfolding first_run_def .
  have v1: "rp_violations (securityReport ?r1) \<noteq> []"
    using first_run_logged by (auto simp: report_violations)
  obtain s2 r2 where h2: "executeSecurely id number_text ?s1 (request ''b'' ''1 + 1'') finishes calm
                            = Returned s2 r2"
    using second_run_returned by blast
  have "set (rp_violations (securityReport ?r1)) \<subseteq> set (rp_violations (securityReport r2))"
    using shared_logs [OF h1 h2] .
  then have "executeSecurely id number_text ready (request ''a'' ''eval(1)'') finishes calm
               = Returned ?s1 ?r1
     \<and> executeSecurely id number_text ?s1 (request ''b'' ''1 + 1'') finishes calm = Returned s2 r2
     \<and> rp_violations (securityReport ?r1) \<noteq> []
     \<and> set (rp_violations (securityReport ?r1)) \<subseteq> set (rp_violations (securityReport r2))"
    using h1 h2 v1 by simp
  then show ?thesis by blast
qed

lemma clean_source: "static_findings id 1000 (js ''1 + 1'') = []"
  by (simp add: static_findings_def occurs_def rx upt_rec)

text \<open>
  The claim of C3 fails for the requests \<open>a\<close> (source \<open>eval(1)\<close>) and \<open>b\<close>
  (source \<open>1 + 1\<close>, in which no pattern occurs): the report returned for \<open>b\<close> lists
  the violation that the analysis of \<open>a\<close> recorded.
\<close>

theorem shared_logs_counterexample:
  "(case second_run of
      Returned s r \<Rightarrow>
        rp_executionId (securityReport r) = js ''b''
        \<and> of_security_violation (pattern_violation 6 1000 (js ''eval(1)''))
            \<in> set (rp_violations (securityReport r))
    | _ \<Rightarrow> False)
   \<and> static_findings id 1000 (js ''1 + 1'') = []"
proof -
  let ?s1 = "ready\<lparr>moduleBlocker := fst (analyzeCode id 1000 new_ModuleSecurityManager (js ''eval(1)''))\<rparr>"
  obtain s2 r2 where h2: "executeSecurely id number_text ?s1 (request ''b'' ''1 + 1'') finishes calm
                            = Returned s2 r2"
    using second_run_returned by blast
  then have sr: "second_run = Returned s2 r2"
    by (simp add: second_run_def first_run_returned)
  obtain m2 n2 where
    r2: "rp_violations (securityReport r2) =
           map of_security_violation
             (an_violations (snd (analyzeCode id (date_now (at_entry calm)) (moduleBlocker ?s1)
                                    (code (request ''b'' ''1 + 1'')))))
           @ map of_security_violation (violations (moduleBlocker s2))
           @ map of_environment_violation (env_violations (environmentBlocker s2))"
    and l2: "violations (moduleBlocker s2) =
               violations (moduleBlocker ?s1)
               @ an_violations (snd (analyzeCode id (date_now (at_entry calm)) (moduleBlocker ?s1)
                                       (code (request ''b'' ''1 + 1''))))
               @ m2"
    and i2: "rp_executionId (securityReport r2) = executionId (request ''b'' ''1 + 1'')"
    using executeSecurely_log [OF h2] by blast
  have "pattern_violation 6 1000 (js ''eval(1)'') \<in> set (violations (moduleBlocker ?s1))"
    using first_run_logged
      analyzeCode_log [of id 1000 new_ModuleSecurityManager "js ''eval(1)''"]
    by simp
  then have "pattern_violation 6 1000 (js ''eval(1)'') \<in> set (violations (moduleBlocker s2))"
    using l2 by simp
  then have "of_security_violation (pattern_violation 6 1000 (js ''eval(1)''))
               \<in> set (rp_violations (securityReport r2))"
    unfolding r2 by simp
  then show ?thesis
    unfolding sr using i2 clean_source by (simp add: sample_facts)
qed

end
